theory Spec2Isabelle
  imports Complex_Main "HOL-Library.Log_Nat"
begin

section \<open>Python values and exceptions\<close>

text \<open>
  The repository is Python glue code around numpy, raysect and cherab, read here with the
  semantics of Python 3: integers are unbounded and \<^verbatim>\<open>/\<close> is true division.  Every
  exception the modelled code can raise is a value of \<open>py_error\<close> (\<open>ExternalError\<close> stands
  for an exception of a library that this theory does not name); a computation that may
  raise has the result type \<open>py_error + 'a\<close> with \<open>Inl\<close> for the exception.  None of the
  functions of the repository contains a \<^verbatim>\<open>try\<close> statement, so an exception raised by
  a step is the result of the whole function.  Running out of memory is not modelled.
\<close>

datatype py_error =
    ZeroDivisionError | OverflowError | ValueError | IndexError | KeyError | TypeError
  | FileNotFoundError | ExternalError string

definition then_do :: "py_error + 'a \<Rightarrow> ('a \<Rightarrow> py_error + 'b) \<Rightarrow> py_error + 'b" where
  "then_do m f = (case m of Inl e \<Rightarrow> Inl e | Inr x \<Rightarrow> f x)"

subsection \<open>Strings and paths\<close>

text \<open>\<^verbatim>\<open>'{}'.format(i)\<close> for a non-negative integer: its decimal digits.\<close>

definition digit_char :: "nat \<Rightarrow> char" where
  "digit_char d = ''0123456789'' ! d"

function str_nat :: "nat \<Rightarrow> string" where
  "str_nat n = (if n < 10 then [digit_char n] else str_nat (n div 10) @ [digit_char (n mod 10)])"
  by pat_completeness auto
termination
  by (relation "measure id") auto

declare str_nat.simps [simp del]

text \<open>\<^verbatim>\<open>os.path.join(a, b)\<close> and \<^verbatim>\<open>os.path.split(p)\<close> of posixpath.\<close>

definition os_path_join :: "string \<Rightarrow> string \<Rightarrow> string" where
  "os_path_join a b =
     (if b \<noteq> [] \<and> hd b = CHR ''/'' then b
      else if a = [] \<or> last a = CHR ''/'' then a @ b
      else a @ ''/'' @ b)"

definition os_path_split :: "string \<Rightarrow> string \<times> string" where
  "os_path_split p =
     (let tail = rev (takeWhile (\<lambda>c. c \<noteq> CHR ''/'') (rev p));
          head = take (length p - length tail) p
      in (if head \<noteq> [] \<and> \<not> list_all (\<lambda>c. c = CHR ''/'') head
          then rev (dropWhile (\<lambda>c. c = CHR ''/'') (rev head)) else head,
          tail))"

subsection \<open>Floating-point division of integers\<close>

text \<open>
  \<^verbatim>\<open>1000 / stride\<close> is Python's true division of two integers: the exact quotient
  rounded to the nearest binary64 number, ties to even, \<^verbatim>\<open>ZeroDivisionError\<close> for a zero
  divisor and \<^verbatim>\<open>OverflowError\<close> when the rounded quotient does not fit.  A finite
  binary64 number is represented by the rational it denotes (the sign of a zero is dropped:
  \<^verbatim>\<open>np.ceil\<close> and \<^verbatim>\<open>int\<close> do not see it).  \<open>binade x\<close> is
  \<open>\<lfloor>log\<^sub>2 x\<rfloor>\<close> of a positive rational, \<open>ulp64 x\<close> the spacing of binary64
  numbers around it (the subnormal spacing below \<open>2 powi (- 1022)\<close>).
\<close>

definition round_half_even :: "rat \<Rightarrow> int" where
  "round_half_even y =
     (let f = \<lfloor>y\<rfloor>; r = y - of_int f
      in if r < 1 / 2 then f else if 1 / 2 < r then f + 1 else if even f then f else f + 1)"

definition binade :: "rat \<Rightarrow> int" where
  "binade x =
     (let (p, q) = quotient_of x; d = bitlen p - bitlen q
      in if 2 powi d \<le> x then d else d - 1)"

definition ulp64 :: "rat \<Rightarrow> rat" where
  "ulp64 x = 2 powi (max (binade x) (- 1022) - 52)"

definition round_binary64 :: "rat \<Rightarrow> rat" where
  "round_binary64 x =
     (if x = 0 then 0
      else sgn x * (of_int (round_half_even (\<bar>x\<bar> / ulp64 \<bar>x\<bar>)) * ulp64 \<bar>x\<bar>))"

definition py_truediv :: "int \<Rightarrow> int \<Rightarrow> py_error + rat" where
  "py_truediv a b =
     (if b = 0 then Inl ZeroDivisionError
      else let r = round_binary64 (of_int a / of_int b)
           in if 2 ^ 1024 \<le> \<bar>r\<bar> then Inl OverflowError else Inr r)"

definition np_ceil :: "rat \<Rightarrow> rat" where
  "np_ceil x = of_int \<lceil>x\<rceil>"

text \<open>\<^verbatim>\<open>int(x)\<close> of a float truncates towards zero.\<close>

definition py_int :: "rat \<Rightarrow> int" where
  "py_int x = (if 0 \<le> x then \<lfloor>x\<rfloor> else \<lceil>x\<rceil>)"

section \<open>numpy arrays\<close>

text \<open>
  A one-dimensional array is a list.  A two-dimensional array carries its shape and its
  rows; numpy arrays are rectangular, which \<open>wf_ndarray\<close> says.  \<open>np_value\<close> is what
  \<^verbatim>\<open>np.load\<close> or an external call may hand back: an array of dimension 0, 1 or 2
  (arrays of higher dimension are outside this model).
\<close>

record 'a ndarray =
  shape0 :: nat
  shape1 :: nat
  rows :: "'a list list"

definition wf_ndarray :: "'a ndarray \<Rightarrow> bool" where
  "wf_ndarray a \<longleftrightarrow> length (rows a) = shape0 a \<and> list_all (\<lambda>r. length r = shape1 a) (rows a)"

datatype 'a np_value = Arr0 'a | Arr1 "'a list" | Arr2 "'a ndarray"

text \<open>
  The slice \<^verbatim>\<open>xs[::step]\<close>: for a positive step the elements at positions
  \<open>0, step, 2 step, \<dots>\<close>; for a negative step the same walk from the last element
  backwards.  Python clips a step beyond the machine range, which gives the same elements.
  \<open>slice_len\<close> is the length numpy computes for the sliced axis from the axis length
  alone.
\<close>

fun every_nth :: "nat \<Rightarrow> 'a list \<Rightarrow> 'a list" where
  "every_nth k [] = []"
| "every_nth k (x # xs) = x # every_nth k (drop (k - 1) xs)"

definition strided :: "int \<Rightarrow> 'a list \<Rightarrow> 'a list" where
  "strided step xs =
     (if 0 < step then every_nth (nat step) xs else every_nth (nat (- step)) (rev xs))"

definition slice_len :: "int \<Rightarrow> nat \<Rightarrow> nat" where
  "slice_len step n = (n + nat \<bar>step\<bar> - 1) div nat \<bar>step\<bar>"

text \<open>\<^verbatim>\<open>a[::step, ::step]\<close>: two slices need two axes; a zero step is refused.\<close>

definition getitem_slice2 :: "int \<Rightarrow> 'a np_value \<Rightarrow> py_error + 'a ndarray" where
  "getitem_slice2 step v =
     (case v of
        Arr0 x \<Rightarrow> Inl IndexError
      | Arr1 xs \<Rightarrow> Inl IndexError
      | Arr2 a \<Rightarrow>
          if step = 0 then Inl ValueError
          else Inr \<lparr>shape0 = slice_len step (shape0 a), shape1 = slice_len step (shape1 a),
                    rows = map (strided step) (strided step (rows a))\<rparr>)"

text \<open>\<^verbatim>\<open>a.flatten()\<close> in the default row-major order.\<close>

definition flatten :: "'a ndarray \<Rightarrow> 'a list" where
  "flatten a = concat (rows a)"

definition np_zeros :: "nat \<Rightarrow> nat \<Rightarrow> ('a::zero) ndarray" where
  "np_zeros m n = \<lparr>shape0 = m, shape1 = n, rows = replicate m (replicate n 0)\<rparr>"

text \<open>
  \<^verbatim>\<open>a[i, :] = v\<close> for a one-dimensional \<open>v\<close>: numpy broadcasts \<open>v\<close> to the length of
  the row, which succeeds when the lengths agree or \<open>v\<close> has exactly one element, and
  raises \<^verbatim>\<open>ValueError\<close> otherwise.
\<close>

definition broadcast_to :: "nat \<Rightarrow> 'a list \<Rightarrow> py_error + 'a list" where
  "broadcast_to n v =
     (if length v = n then Inr v
      else if length v = 1 then Inr (replicate n (hd v))
      else Inl ValueError)"

definition setitem_row :: "'a ndarray \<Rightarrow> nat \<Rightarrow> 'a list \<Rightarrow> py_error + 'a ndarray" where
  "setitem_row a i v =
     (if shape0 a \<le> i then Inl IndexError
      else then_do (broadcast_to (shape1 a) v) (\<lambda>r. Inr (a\<lparr>rows := (rows a)[i := r]\<rparr>)))"

text \<open>\<^verbatim>\<open>np.swapaxes(a, 0, 1)\<close> of a two-dimensional array: its transpose.\<close>

definition swapaxes :: "'a ndarray \<Rightarrow> 'a ndarray" where
  "swapaxes a =
     \<lparr>shape0 = shape1 a, shape1 = shape0 a,
      rows = map (\<lambda>j. map (\<lambda>i. rows a ! i ! j) [0..<shape0 a]) [0..<shape1 a]\<rparr>"

text \<open>\<^verbatim>\<open>a.squeeze()\<close> of a two-dimensional array drops the axes of length one.\<close>

definition squeeze :: "'a ndarray \<Rightarrow> 'a np_value" where
  "squeeze a =
     (if shape0 a = 1 \<and> shape1 a = 1 then Arr0 (hd (hd (rows a)))
      else if shape0 a = 1 then Arr1 (hd (rows a))
      else if shape1 a = 1 then Arr1 (map hd (rows a))
      else Arr2 a)"

text \<open>
  Indexing with a one-dimensional boolean mask, \<^verbatim>\<open>a[mask]\<close>: the mask selects along
  the first axis and must have its length.
\<close>

definition select :: "bool list \<Rightarrow> 'a list \<Rightarrow> 'a list" where
  "select mask' xs = map fst (filter snd (zip xs mask'))"

definition getitem_mask :: "bool list \<Rightarrow> 'a np_value \<Rightarrow> py_error + 'a np_value" where
  "getitem_mask mask' v =
     (case v of
        Arr0 x \<Rightarrow> Inl IndexError
      | Arr1 xs \<Rightarrow> if length mask' = length xs then Inr (Arr1 (select mask' xs)) else Inl IndexError
      | Arr2 a \<Rightarrow>
          if length mask' = shape0 a
          then Inr (Arr2 \<lparr>shape0 = length (select mask' (rows a)), shape1 = shape1 a,
                          rows = select mask' (rows a)\<rparr>)
          else Inl IndexError)"

section \<open>The KL11 loaders (\<^verbatim>\<open>cherab/jet/cameras/kl11/load_kl11.py\<close>)\<close>

subsection \<open>\<^verbatim>\<open>load_kl11_sensitivity_matrix\<close>\<close>

text \<open>
  The file system enters through \<open>np_load\<close>: for a path, either the exception
  \<^verbatim>\<open>np.load\<close> raises there or the array it returns.  The state of the loop is the
  array \<^verbatim>\<open>sensitivity\<close> together with the list of paths handed to
  \<^verbatim>\<open>np.load\<close> so far; the function returns this state with the array transposed, so
  that the trace of the loads can be read off its result.  The entries of the files are
  copied as they are (the type \<open>'a\<close>); \<^verbatim>\<open>stride\<close> is an integer and
  \<^verbatim>\<open>reflections\<close> a boolean.
\<close>

definition base_path :: string where
  "base_path = ''/work/mcarr/tasks/kl11/data''"

definition dimension :: "int \<Rightarrow> py_error + int" where
  "dimension stride = then_do (py_truediv 1000 stride) (\<lambda>q. Inr (py_int (np_ceil q)))"

definition channel_file :: "string \<Rightarrow> nat \<Rightarrow> string" where
  "channel_file prefix i = os_path_join base_path (prefix @ str_nat i @ ''.npy'')"

text \<open>
  The right-hand side of the loop body,
  \<^verbatim>\<open>np.load(os.path.join(base_path, '...{}.npy'.format(i)))[::stride,::stride].flatten()\<close>.
\<close>

definition channel_row ::
  "(string \<Rightarrow> py_error + 'a np_value) \<Rightarrow> string \<Rightarrow> int \<Rightarrow> nat \<Rightarrow> py_error + 'a list" where
  "channel_row np_load prefix stride i =
     then_do (np_load (channel_file prefix i))
       (\<lambda>v. then_do (getitem_slice2 stride v) (\<lambda>a. Inr (flatten a)))"

record 'a load_state =
  loaded :: "string list"
  sensitivity :: "'a ndarray"

fun fill_rows ::
  "(string \<Rightarrow> py_error + 'a np_value) \<Rightarrow> string \<Rightarrow> int \<Rightarrow> nat list \<Rightarrow> 'a load_state
    \<Rightarrow> py_error + 'a load_state" where
  "fill_rows np_load prefix stride [] st = Inr st"
| "fill_rows np_load prefix stride (i # is) st =
     (case channel_row np_load prefix stride i of
        Inl e \<Rightarrow> Inl e
      | Inr v \<Rightarrow>
          (case setitem_row (sensitivity st) i v of
             Inl e \<Rightarrow> Inl e
           | Inr a \<Rightarrow>
               fill_rows np_load prefix stride is
                 \<lparr>loaded = loaded st @ [channel_file prefix i], sensitivity = a\<rparr>))"

definition load_kl11_sensitivity_matrix ::
  "(string \<Rightarrow> py_error + 'a np_value) \<Rightarrow> bool \<Rightarrow> int \<Rightarrow> py_error + ('a::zero) load_state" where
  "load_kl11_sensitivity_matrix np_load reflections stride =
     then_do (dimension stride)
       (\<lambda>d.
          let st = \<lparr>loaded = [], sensitivity = np_zeros 2655 (nat (d * d))\<rparr>
          in then_do
               (if reflections
                then fill_rows np_load ''kl11_rf_sensitivity_matrix_'' stride [0..<2655] st
                else fill_rows np_load ''kl11_norf_sensitivity_matrix_'' stride [0..<2655] st)
               (\<lambda>st'. Inr (st'\<lparr>sensitivity := swapaxes (sensitivity st')\<rparr>)))"

subsection \<open>\<^verbatim>\<open>load_kl11_camera\<close>\<close>

text \<open>
  \<^verbatim>\<open>PowerPipeline2D\<close> and \<^verbatim>\<open>VectorCamera\<close> are classes of raysect.  Their
  objects are records of the attributes this code sets; an attribute the code leaves to the
  library is \<open>None\<close>.  A caller may pass pipelines of any kind, the type \<open>'p\<close>; the
  arguments \<^verbatim>\<open>parent\<close> and \<^verbatim>\<open>pipelines\<close> are written \<open>par\<close> and \<open>pls\<close>.
  The float literal \<^verbatim>\<open>0.96\<close> is the decimal it is written as.
  \<^verbatim>\<open>load_calcam_calibration\<close> is a function of cherab: a parameter, giving for a path
  the exception it raises or the triple it returns.
\<close>

record power_pipeline2d =
  display_unsaturated_fraction :: rat
  pipeline_name :: string
  display_update_time :: "int option"

datatype 'p pipeline = PowerPipeline2D power_pipeline2d | OtherPipeline 'p

record ('o, 'd, 'p, 'n) vector_camera =
  pixel_origins :: "'o ndarray"
  pixel_directions :: "'d ndarray"
  pipelines :: "'p pipeline list"
  parent :: "'n option"
  spectral_bins :: "nat option"
  pixel_samples :: "nat option"

definition calibration_file :: string where
  "calibration_file = ''/home/mcarr/cherab/cherab_jet/cherab/jet/cameras/kl11/KL11-E1DC_87516.nc''"

definition new_PowerPipeline2D :: "rat \<Rightarrow> string \<Rightarrow> power_pipeline2d" where
  "new_PowerPipeline2D fraction name =
     \<lparr>display_unsaturated_fraction = fraction, pipeline_name = name, display_update_time = None\<rparr>"

definition new_VectorCamera ::
  "'o ndarray \<Rightarrow> 'd ndarray \<Rightarrow> 'p pipeline list \<Rightarrow> 'n option \<Rightarrow> ('o, 'd, 'p, 'n) vector_camera" where
  "new_VectorCamera origins directions pls par =
     \<lparr>pixel_origins = origins, pixel_directions = directions, pipelines = pls, parent = par,
      spectral_bins = None, pixel_samples = None\<rparr>"

text \<open>\<^verbatim>\<open>not pipelines\<close>: \<^verbatim>\<open>None\<close> and the empty list are falsy.\<close>

definition falsy :: "'a list option \<Rightarrow> bool" where
  "falsy x = (case x of None \<Rightarrow> True | Some xs \<Rightarrow> xs = [])"

definition load_kl11_camera ::
  "(string \<Rightarrow> py_error + ((nat \<times> nat) \<times> 'o np_value \<times> 'd np_value))
    \<Rightarrow> 'n option \<Rightarrow> 'p pipeline list option \<Rightarrow> int
    \<Rightarrow> py_error + ('o, 'd, 'p, 'n) vector_camera" where
  "load_kl11_camera load_calcam_calibration par pls stride =
     then_do (load_calcam_calibration calibration_file)
       (\<lambda>camera_config.
          let pls' =
                (if falsy pls
                 then let power_unfiltered = new_PowerPipeline2D (96 / 100) ''Unfiltered Power (W)'';
                          power_unfiltered = power_unfiltered\<lparr>display_update_time := Some 15\<rparr>
                      in [PowerPipeline2D power_unfiltered]
                 else the pls)
          in case camera_config of (pixels_shape, origins, directions) \<Rightarrow>
               then_do (getitem_slice2 stride origins)
                 (\<lambda>os. then_do (getitem_slice2 stride directions)
                    (\<lambda>ds. let camera = new_VectorCamera os ds pls' par;
                              camera = camera\<lparr>spectral_bins := Some 15\<rparr>;
                              camera = camera\<lparr>pixel_samples := Some 1\<rparr>
                          in Inr camera)))"

subsection \<open>\<^verbatim>\<open>load_kl11_voxel_grid\<close>\<close>

text \<open>
  \<open>json\<close> is the value \<^verbatim>\<open>json.load\<close> builds: an object keeps its members in file
  order, and when a key occurs twice the dictionary holds the later value.  A number is the
  rational that the Python integer or float denotes (the non-standard literals
  \<^verbatim>\<open>NaN\<close> and \<^verbatim>\<open>Infinity\<close> are outside the model), a string is the list of its
  characters.  \<open>read_json\<close> stands for \<^verbatim>\<open>open\<close> followed by \<^verbatim>\<open>json.load\<close>: for
  a path, the exception raised or the value read.  \<^verbatim>\<open>Point2D\<close> (raysect) converts its
  arguments to floats; \<^verbatim>\<open>ToroidalVoxelGrid\<close> (cherab) is the record of its arguments.
\<close>

datatype json =
    JNull | JBool bool | JNum rat | JStr string | JArr "json list" | JObj "(string \<times> json) list"

datatype point2d = Point2D rat rat

type_synonym quad = "point2d \<times> point2d \<times> point2d \<times> point2d"

record 'n toroidal_voxel_grid =
  grid_voxels :: "quad list"
  grid_parent :: "'n option"
  grid_name :: "string option"

text \<open>\<^verbatim>\<open>v[key]\<close> for a string key, \<^verbatim>\<open>v[i]\<close> for an index, and iteration.\<close>

definition getitem_key :: "json \<Rightarrow> string \<Rightarrow> py_error + json" where
  "getitem_key v key =
     (case v of
        JObj members \<Rightarrow>
          (case map_of (rev members) key of None \<Rightarrow> Inl KeyError | Some x \<Rightarrow> Inr x)
      | _ \<Rightarrow> Inl TypeError)"

definition getitem_index :: "json \<Rightarrow> nat \<Rightarrow> py_error + json" where
  "getitem_index v i =
     (case v of
        JArr xs \<Rightarrow> if i < length xs then Inr (xs ! i) else Inl IndexError
      | JStr s \<Rightarrow> if i < length s then Inr (JStr [s ! i]) else Inl IndexError
      | JObj members \<Rightarrow> Inl KeyError
      | _ \<Rightarrow> Inl TypeError)"

definition py_iter :: "json \<Rightarrow> py_error + json list" where
  "py_iter v =
     (case v of
        JArr xs \<Rightarrow> Inr xs
      | JObj members \<Rightarrow> Inr (map JStr (rev (remdups (rev (map fst members)))))
      | JStr s \<Rightarrow> Inr (map (\<lambda>c. JStr [c]) s)
      | _ \<Rightarrow> Inl TypeError)"

text \<open>
  The conversion of an argument to a C double: a number is rounded to binary64 (an integer
  too large for a double is refused), a boolean is the integer 0 or 1, anything else is not
  a number.
\<close>

definition py_float :: "json \<Rightarrow> py_error + rat" where
  "py_float v =
     (case v of
        JNum x \<Rightarrow>
          let r = round_binary64 x in if 2 ^ 1024 \<le> \<bar>r\<bar> then Inl OverflowError else Inr r
      | JBool b \<Rightarrow> Inr (if b then 1 else 0)
      | _ \<Rightarrow> Inl TypeError)"

text \<open>\<^verbatim>\<open>Point2D(voxel[key][0], voxel[key][1])\<close>: both arguments are evaluated, then converted.\<close>

definition corner :: "json \<Rightarrow> string \<Rightarrow> py_error + point2d" where
  "corner voxel key =
     then_do (getitem_key voxel key) (\<lambda>p.
     then_do (getitem_index p 0) (\<lambda>a.
     then_do (getitem_key voxel key) (\<lambda>p'.
     then_do (getitem_index p' 1) (\<lambda>b.
     then_do (py_float a) (\<lambda>x.
     then_do (py_float b) (\<lambda>y. Inr (Point2D x y)))))))"

definition voxel_quad :: "json \<Rightarrow> py_error + quad" where
  "voxel_quad voxel =
     then_do (corner voxel ''p1'') (\<lambda>v1.
     then_do (corner voxel ''p2'') (\<lambda>v2.
     then_do (corner voxel ''p3'') (\<lambda>v3.
     then_do (corner voxel ''p4'') (\<lambda>v4. Inr (v1, v2, v3, v4)))))"

fun append_voxels :: "json list \<Rightarrow> quad list \<Rightarrow> py_error + quad list" where
  "append_voxels [] voxel_coordinates = Inr voxel_coordinates"
| "append_voxels (voxel # rest) voxel_coordinates =
     (case voxel_quad voxel of
        Inl e \<Rightarrow> Inl e
      | Inr q \<Rightarrow> append_voxels rest (voxel_coordinates @ [q]))"

definition load_kl11_voxel_grid ::
  "string \<Rightarrow> (string \<Rightarrow> py_error + json) \<Rightarrow> 'n option \<Rightarrow> string option
    \<Rightarrow> py_error + 'n toroidal_voxel_grid" where
  "load_kl11_voxel_grid module_file read_json par name =
     (let directory = fst (os_path_split module_file);
          voxel_grid_file = os_path_join directory ''kl11_voxel_grid.json''
      in then_do (read_json voxel_grid_file) (\<lambda>grid_description.
         then_do (getitem_key grid_description ''cells'') (\<lambda>cells.
         then_do (py_iter cells) (\<lambda>voxels.
         then_do (append_voxels voxels []) (\<lambda>voxel_coordinates.
           Inr \<lparr>grid_voxels = voxel_coordinates, grid_parent = par, grid_name = name\<rparr>)))))"

section \<open>The demo script (\<^verbatim>\<open>demos/diagnostic/ks5/camera_76666.py\<close>)\<close>

subsection \<open>Fetching and masking the profiles\<close>

text \<open>
  The profile samples are binary64 numbers sent by the data server, so a sample may be an
  infinity or a NaN; the comparison \<^verbatim>\<open><=\<close> is false whenever a NaN takes part.
  \<open>sal_get\<close> stands for \<^verbatim>\<open>sal.get\<close>: for a path, the exception raised or the signal
  returned, whose \<^verbatim>\<open>dimensions[k].data\<close> are one-dimensional coordinate arrays and whose
  \<^verbatim>\<open>data\<close> is a two-dimensional array.  The interpolators built between the fetches
  (\<^verbatim>\<open>Interpolate1DCubic\<close>, \<^verbatim>\<open>AxisymmetricMapper\<close>, \<dots>) and the two
  \<^verbatim>\<open>print\<close> calls belong to other libraries and do not change the arrays; \<open>profiles\<close>
  is the data the script hands to them.
\<close>

datatype float64 = Finite rat | PosInf | NegInf | NaN

fun float_le :: "float64 \<Rightarrow> float64 \<Rightarrow> bool" where
  "float_le NaN y = False"
| "float_le x NaN = False"
| "float_le NegInf y = True"
| "float_le x PosInf = True"
| "float_le (Finite a) (Finite b) = (a \<le> b)"
| "float_le x y = False"

fun float_gt :: "float64 \<Rightarrow> float64 \<Rightarrow> bool" where
  "float_gt NaN y = False"
| "float_gt x NaN = False"
| "float_gt PosInf y = (y \<noteq> PosInf)"
| "float_gt x NegInf = (x \<noteq> NegInf)"
| "float_gt (Finite a) (Finite b) = (b < a)"
| "float_gt x y = False"

record signal =
  dimensions :: "float64 list list"
  data :: "float64 ndarray"

record profile_data =
  psi_coord :: "float64 list"
  flow_velocity_tor_data :: "float64 np_value"
  ion_temperature_data :: "float64 np_value"
  electron_density_data :: "float64 np_value"
  density_c6_data :: "float64 np_value"

definition PULSE_PLASMA :: nat where
  "PULSE_PLASMA = 79503"

definition user :: string where
  "user = ''cgiroud''"

definition sequence :: nat where
  "sequence = 0"

text \<open>\<^verbatim>\<open>DATA_PATH.format(pulse, user, dda, dtype, sequence)\<close>.\<close>

definition DATA_PATH :: "nat \<Rightarrow> string \<Rightarrow> string \<Rightarrow> string \<Rightarrow> nat \<Rightarrow> string" where
  "DATA_PATH pulse usr dda dtype seq =
     ''/pulse/'' @ str_nat pulse @ ''/ppf/signal/'' @ usr @ ''/'' @ dda @ ''/'' @ dtype
       @ '':'' @ str_nat seq"

definition getitem_list :: "'a list \<Rightarrow> nat \<Rightarrow> py_error + 'a" where
  "getitem_list xs i = (if i < length xs then Inr (xs ! i) else Inl IndexError)"

text \<open>\<^verbatim>\<open>mask = psi_coord <= 1.0\<close>, elementwise.\<close>

definition psi_mask :: "float64 list \<Rightarrow> bool list" where
  "psi_mask psi = map (\<lambda>p. float_le p (Finite 1)) psi"

text \<open>\<^verbatim>\<open>sal.get(DATA_PATH.format(PULSE_PLASMA, user, 'PRFL', dtype, sequence)).data.squeeze()[mask]\<close>.\<close>

definition masked_signal ::
  "(string \<Rightarrow> py_error + signal) \<Rightarrow> string \<Rightarrow> bool list \<Rightarrow> py_error + float64 np_value" where
  "masked_signal sal_get dtype mask' =
     then_do (sal_get (DATA_PATH PULSE_PLASMA user ''PRFL'' dtype sequence))
       (\<lambda>s. getitem_mask mask' (squeeze (data s)))"

definition profiles :: "(string \<Rightarrow> py_error + signal) \<Rightarrow> py_error + profile_data" where
  "profiles sal_get =
     then_do (sal_get (DATA_PATH PULSE_PLASMA user ''PRFL'' ''C6'' sequence)) (\<lambda>s.
     then_do (getitem_list (dimensions s) 1) (\<lambda>psi.
       let mask' = psi_mask psi;
           psi' = select mask' psi
       in then_do (masked_signal sal_get ''VT'' mask') (\<lambda>vt.
          then_do (masked_signal sal_get ''TI'' mask') (\<lambda>ti.
          then_do (masked_signal sal_get ''NE'' mask') (\<lambda>ne.
          then_do (masked_signal sal_get ''C6'' mask') (\<lambda>c6.
            Inr \<lparr>psi_coord = psi', flow_velocity_tor_data = vt, ion_temperature_data = ti,
                 electron_density_data = ne, density_c6_data = c6\<rparr>))))))"

subsection \<open>The plasma fields\<close>












section \<open>Auxiliary notions for the proofs\<close>

text \<open>
  The file-name prefix the loop of \<open>load_kl11_sensitivity_matrix\<close> uses, the row the
  iteration for channel \<open>i\<close> stores in a matrix with rows of length \<open>n\<close>, and column \<open>j\<close>
  of a two-dimensional array.
\<close>

definition matrix_prefix :: "bool \<Rightarrow> string" where
  "matrix_prefix reflections =
     (if reflections then ''kl11_rf_sensitivity_matrix_'' else ''kl11_norf_sensitivity_matrix_'')"

definition stored_row ::
  "(string \<Rightarrow> py_error + 'a np_value) \<Rightarrow> string \<Rightarrow> int \<Rightarrow> nat \<Rightarrow> nat \<Rightarrow> py_error + 'a list" where
  "stored_row np_load prefix stride n i =
     then_do (channel_row np_load prefix stride i) (broadcast_to n)"

definition column :: "'a ndarray \<Rightarrow> nat \<Rightarrow> 'a list" where
  "column a j = map (\<lambda>r. r ! j) (rows a)"

text \<open>Reading a decimal numeral back, to tell the file names of different channels apart.\<close>

definition digit_val :: "char \<Rightarrow> nat" where
  "digit_val c = length (takeWhile (\<lambda>d. d \<noteq> c) ''0123456789'')"

definition nat_of_str :: "string \<Rightarrow> nat" where
  "nat_of_str s = foldl (\<lambda>a c. 10 * a + digit_val c) 0 s"

section \<open>Properties of the model\<close>

subsection \<open>Sequencing\<close>

lemma then_do_Inr [simp]: "then_do (Inr x) f = f x"
  by (simp add: then_do_def)

lemma then_do_Inl [simp]: "then_do (Inl e) f = Inl e"
  by (simp add: then_do_def)

lemma then_do_eq_Inr:
  "then_do m f = Inr y \<longleftrightarrow> (\<exists>x. m = Inr x \<and> f x = Inr y)"
  by (cases m) simp_all

subsection \<open>Rounding to binary64\<close>

lemma round_half_even_error: "\<bar>of_int (round_half_even y) - y\<bar> \<le> 1 / 2"
proof -
  have "of_int \<lfloor>y\<rfloor> \<le> y" "y < of_int \<lfloor>y\<rfloor> + 1" by linarith+
  then show ?thesis
    by (auto simp: round_half_even_def Let_def)
qed

lemma round_half_even_le: "y \<le> of_int n \<Longrightarrow> round_half_even y \<le> n"
  using round_half_even_error [of y] by linarith

lemma round_half_even_ge: "of_int n \<le> y \<Longrightarrow> n \<le> round_half_even y"
  using round_half_even_error [of y] by linarith

lemma round_half_even_of_int: "round_half_even (of_int n) = n"
  using round_half_even_le [of "of_int n" n] round_half_even_ge [of n "of_int n"] by simp

lemma round_half_even_pos: "1 / 2 < y \<Longrightarrow> 1 \<le> round_half_even y"
  using round_half_even_error [of y] by linarith

lemma round_half_even_zero: "0 \<le> y \<Longrightarrow> y \<le> 1 / 2 \<Longrightarrow> round_half_even y = 0"
proof -
  assume a: "0 \<le> y" "y \<le> 1 / 2"
  then have "\<lfloor>y\<rfloor> = 0" by linarith
  with a show ?thesis by (auto simp: round_half_even_def Let_def)
qed

lemma binade_bounds:
  assumes "0 < x"
  shows "2 powi binade x \<le> x" and "x < 2 powi (binade x + 1)"
proof -
  obtain p q where pq: "quotient_of x = (p, q)" by (cases "quotient_of x")
  then have q: "0 < q" and x: "x = of_int p / of_int q"
    using quotient_of_denom_pos quotient_of_div by blast+
  with assms have p: "0 < p" by (simp add: zero_less_divide_iff)
  define d where "d = bitlen p - bitlen q"
  have bp: "1 \<le> bitlen p" "1 \<le> bitlen q"
    using p q bitlen_eq_zero_iff [of p] bitlen_eq_zero_iff [of q] bitlen_nonneg [of p] bitlen_nonneg [of q]
    by linarith+
  have pw: "(2::rat) powi k = of_int (2 ^ nat k)" if "0 \<le> k" for k
    using that by (simp add: power_int_nonneg_exp)
  have ib: "(2::rat) powi (bitlen n - 1) \<le> of_int n \<and> of_int n < (2::rat) powi bitlen n"
    if "0 < n" "1 \<le> bitlen n" for n
  proof -
    from bitlen_bounds [OF that(1)]
    have "(of_int (2 ^ nat (bitlen n - 1)) :: rat) \<le> of_int n"
      and "(of_int n :: rat) < of_int (2 ^ nat (bitlen n))"
      by (simp_all only: of_int_le_iff of_int_less_iff)
    then show ?thesis using that(2) pw [of "bitlen n - 1"] pw [of "bitlen n"] by simp
  qed
  have p1: "(2::rat) powi (bitlen p - 1) \<le> of_int p" and p2: "of_int p < (2::rat) powi bitlen p"
    using ib [OF p bp(1)] by simp_all
  have q1: "(2::rat) powi (bitlen q - 1) \<le> of_int q" and q2: "of_int q < (2::rat) powi bitlen q"
    using ib [OF q bp(2)] by simp_all
  have qpos: "(0::rat) < of_int q" using q by simp
  have lo: "(2::rat) powi (d - 1) < x"
  proof -
    have "(2::rat) powi (d - 1) * of_int q < 2 powi (d - 1) * 2 powi bitlen q"
      using q2 by (simp add: mult_strict_left_mono)
    also have "\<dots> = 2 powi (bitlen p - 1)"
      by (simp add: d_def flip: power_int_add)
    also have "\<dots> \<le> of_int p" by (rule p1)
    finally show ?thesis using qpos by (simp add: x pos_less_divide_eq)
  qed
  have hi: "x < (2::rat) powi (d + 1)"
  proof -
    have "of_int p < (2::rat) powi bitlen p" by (rule p2)
    also have "\<dots> = 2 powi (d + 1) * 2 powi (bitlen q - 1)"
      by (simp add: d_def flip: power_int_add)
    also have "\<dots> \<le> 2 powi (d + 1) * of_int q"
      using q1 by (simp add: mult_left_mono)
    finally show ?thesis using qpos by (simp add: x pos_divide_less_eq)
  qed
  have b: "binade x = (if 2 powi d \<le> x then d else d - 1)"
    by (simp add: binade_def pq d_def Let_def)
  show "2 powi binade x \<le> x" using lo by (simp add: b)
  show "x < 2 powi (binade x + 1)" using hi by (auto simp add: b)
qed

lemma powi2_less_cancel: "(2::rat) powi a < 2 powi b \<Longrightarrow> a < b"
proof (rule ccontr)
  assume l: "(2::rat) powi a < 2 powi b" and "\<not> a < b"
  then have "b \<le> a" by simp
  then have "(2::rat) powi b \<le> 2 powi a" by (rule power_int_increasing) simp
  with l show False by simp
qed

lemma binade_unique:
  assumes "(2::rat) powi e \<le> x" and "x < 2 powi (e + 1)"
  shows "binade x = e"
proof -
  have "(0::rat) < 2 powi e" by (simp add: zero_less_power_int)
  with assms(1) have pos: "0 < x" by linarith
  note b = binade_bounds [OF pos]
  have "(2::rat) powi e < 2 powi (binade x + 1)" using assms(1) b(2) by linarith
  then have 1: "e < binade x + 1" by (rule powi2_less_cancel)
  have "(2::rat) powi binade x < 2 powi (e + 1)" using assms(2) b(1) by linarith
  then have 2: "binade x < e + 1" by (rule powi2_less_cancel)
  from 1 2 show ?thesis by linarith
qed

lemma powi2_le_cancel: "(2::rat) powi a \<le> 2 powi b \<Longrightarrow> a \<le> b"
proof (rule ccontr)
  assume l: "(2::rat) powi a \<le> 2 powi b" and "\<not> a \<le> b"
  then have "b < a" by simp
  then have "(2::rat) powi b < 2 powi a" by (rule power_int_strict_increasing) simp
  with l show False by simp
qed

lemma binade_less: "0 < x \<Longrightarrow> x < 2 powi k \<Longrightarrow> binade x < k"
  using binade_bounds(1) [of x] powi2_less_cancel [of "binade x" k] by linarith

lemma binade_ge: "2 powi k \<le> x \<Longrightarrow> k \<le> binade x"
proof -
  assume a: "2 powi k \<le> x"
  have "(0::rat) < 2 powi k" by (simp add: zero_less_power_int)
  with a have "0 < x" by linarith
  from binade_bounds(2) [OF this] a have "(2::rat) powi k < 2 powi (binade x + 1)" by linarith
  then show ?thesis using powi2_less_cancel by fastforce
qed

lemma round_binary64_pos:
  "0 < x \<Longrightarrow> round_binary64 x = of_int (round_half_even (x / ulp64 x)) * ulp64 x"
  by (simp add: round_binary64_def)

lemma ulp64_pos: "0 < ulp64 x"
  by (simp add: ulp64_def zero_less_power_int)

lemma round_binary64_error:
  assumes "0 < x"
  shows "\<bar>round_binary64 x - x\<bar> \<le> ulp64 x / 2"
proof -
  let ?u = "ulp64 x"
  have u: "0 < ?u" by (rule ulp64_pos)
  have "\<bar>of_int (round_half_even (x / ?u)) - x / ?u\<bar> * ?u \<le> 1 / 2 * ?u"
    using round_half_even_error [of "x / ?u"] u by (intro mult_right_mono) simp_all
  moreover have "of_int (round_half_even (x / ?u)) * ?u - x
      = (of_int (round_half_even (x / ?u)) - x / ?u) * ?u"
    using u by (simp add: left_diff_distrib)
  then have "\<bar>of_int (round_half_even (x / ?u)) * ?u - x\<bar>
      = \<bar>of_int (round_half_even (x / ?u)) - x / ?u\<bar> * ?u"
    using u by (simp only: abs_mult abs_of_pos)
  ultimately show ?thesis by (simp add: round_binary64_pos [OF assms])
qed

lemma ulp64_inverse:
  assumes "binade x \<le> 52"
  shows "ulp64 x * of_int (2 ^ nat (52 - max (binade x) (- 1022))) = 1"
proof -
  let ?m = "max (binade x) (- 1022)"
  have "0 \<le> 52 - ?m" using assms by simp
  then have "(of_int (2 ^ nat (52 - ?m)) :: rat) = 2 powi (52 - ?m)"
    by (simp add: power_int_nonneg_exp)
  then have "ulp64 x * of_int (2 ^ nat (52 - ?m)) = 2 powi (?m - 52) * 2 powi (52 - ?m)"
    by (simp only: ulp64_def)
  also have "\<dots> = 1" by (simp flip: power_int_add)
  finally show ?thesis .
qed

lemma round_binary64_le_int:
  assumes "0 < x" and "x \<le> of_int k" and "binade x \<le> 52"
  shows "round_binary64 x \<le> of_int k"
proof -
  define N :: int where "N = 2 ^ nat (52 - max (binade x) (- 1022))"
  have uN: "ulp64 x * of_int N = 1" unfolding N_def by (rule ulp64_inverse [OF assms(3)])
  have u: "0 < ulp64 x" by (rule ulp64_pos)
  have N: "(0::rat) < of_int N" by (simp add: N_def)
  have inv: "x / ulp64 x = x * of_int N"
    using uN u by (simp add: field_simps)
  have "x * of_int N \<le> of_int k * of_int N"
    using assms(2) N by (intro mult_right_mono) simp_all
  then have "x / ulp64 x \<le> of_int (k * N)" by (simp add: inv)
  then have "round_half_even (x / ulp64 x) \<le> k * N" by (rule round_half_even_le)
  then have "(of_int (round_half_even (x / ulp64 x)) :: rat) \<le> of_int (k * N)"
    by (simp only: of_int_le_iff)
  then have "of_int (round_half_even (x / ulp64 x)) * ulp64 x \<le> of_int (k * N) * ulp64 x"
    using u by (intro mult_right_mono) simp_all
  also have "\<dots> = of_int k * (ulp64 x * of_int N)" by simp
  also have "\<dots> = of_int k" by (simp only: uN mult_1_right)
  finally show ?thesis by (simp add: round_binary64_pos [OF assms(1)])
qed

lemma round_binary64_of_int:
  assumes "0 < k" and "of_int k < (2::rat) ^ 53"
  shows "round_binary64 (of_int k) = of_int k"
proof -
  let ?x = "of_int k :: rat"
  have x: "0 < ?x" using assms(1) by simp
  have "?x < 2 powi 53" using assms(2) by simp
  from binade_less [OF x this] have b: "binade ?x \<le> 52" by simp
  define N :: int where "N = 2 ^ nat (52 - max (binade ?x) (- 1022))"
  have uN: "ulp64 ?x * of_int N = 1" unfolding N_def by (rule ulp64_inverse [OF b])
  have u: "0 < ulp64 ?x" by (rule ulp64_pos)
  have "?x / ulp64 ?x = ?x * of_int N" using uN u by (simp add: field_simps)
  then have "?x / ulp64 ?x = of_int (k * N)" by simp
  then have "round_half_even (?x / ulp64 ?x) = k * N"
    by (simp only: round_half_even_of_int)
  then have "round_binary64 ?x = of_int (k * N) * ulp64 ?x"
    by (simp only: round_binary64_pos [OF x])
  also have "\<dots> = ?x * (ulp64 ?x * of_int N)" by simp
  also have "\<dots> = ?x" by (simp only: uN mult_1_right)
  finally show ?thesis .
qed

lemma round_binary64_positive:
  assumes "2 powi (- 1075) < x"
  shows "0 < round_binary64 x"
proof -
  have "(0::rat) < 2 powi (- 1075)" by (simp add: zero_less_power_int)
  with assms have x: "0 < x" by linarith
  have u: "0 < ulp64 x" by (rule ulp64_pos)
  have "1 / 2 < x / ulp64 x"
  proof (cases "- 1022 \<le> binade x")
    case True
    then have "ulp64 x = 2 powi (binade x - 52)" by (simp add: ulp64_def max_def)
    then have "ulp64 x * 2 ^ 52 = 2 powi binade x"
      by (simp add: power_int_diff)
    also have "\<dots> \<le> x" by (rule binade_bounds(1) [OF x])
    finally have "2 ^ 52 \<le> x / ulp64 x" using u by (simp add: pos_le_divide_eq mult.commute)
    moreover have "(1::rat) \<le> 2 ^ 52" by simp
    ultimately show ?thesis by linarith
  next
    case False
    then have "ulp64 x = 2 powi (- 1075 + 1)" by (simp add: ulp64_def max_def)
    also have "\<dots> = 2 powi (- 1075) * 2" by (subst power_int_add_1) simp_all
    finally have "ulp64 x / 2 < x" using assms by simp
    then show ?thesis using u by (simp add: pos_less_divide_eq)
  qed
  then have "1 \<le> round_half_even (x / ulp64 x)" by (rule round_half_even_pos)
  then have "(0::rat) < of_int (round_half_even (x / ulp64 x))" by simp
  then show ?thesis using u by (simp add: round_binary64_pos [OF x])
qed

lemma round_binary64_underflow:
  assumes "0 < x" and "x \<le> 2 powi (- 1075)"
  shows "round_binary64 x = 0"
proof -
  have "(2::rat) powi (- 1075) < 2 powi (- 1022)" by (rule power_int_strict_increasing) simp_all
  with assms(2) have "x < 2 powi (- 1022)" by linarith
  from binade_less [OF assms(1) this] have "ulp64 x = 2 powi (- 1075 + 1)"
    by (simp add: ulp64_def max_def)
  also have "\<dots> = 2 powi (- 1075) * 2" by (subst power_int_add_1) simp_all
  finally have ux: "x \<le> ulp64 x / 2" using assms(2) by simp
  have u: "0 < ulp64 x" by (rule ulp64_pos)
  from ux u have "x / ulp64 x \<le> 1 / 2" by (simp add: pos_divide_le_eq)
  moreover have "0 \<le> x / ulp64 x" using assms(1) u by simp
  ultimately have "round_half_even (x / ulp64 x) = 0" by (intro round_half_even_zero)
  then show ?thesis by (simp add: round_binary64_pos [OF assms(1)])
qed

lemma dimension_of_round:
  assumes "stride \<noteq> 0" and "round_binary64 (1000 / of_int stride) = r"
    and "of_int k - 1 < r" and "r \<le> of_int k" and "0 \<le> k" and "k \<le> 1000"
  shows "dimension stride = Inr k"
proof -
  have "\<bar>r\<bar> \<le> 1000" using assms(3-6) by simp
  moreover have "(1000::rat) < 2 ^ 1024" by simp
  ultimately have "\<not> 2 ^ 1024 \<le> \<bar>r\<bar>" by linarith
  then have div: "py_truediv 1000 stride = Inr r"
    using assms(1,2) by (simp add: py_truediv_def Let_def)
  have "\<lceil>r\<rceil> = k" using assms(3,4) by (rule ceiling_unique)
  then show ?thesis using assms(5) by (simp add: dimension_def div np_ceil_def py_int_def)
qed

lemma dimension_exact:
  assumes "1 \<le> stride" and "stride < 1000 * 2 ^ 1075"
  shows "dimension stride = Inr \<lceil>(1000::rat) / of_int stride\<rceil>"
proof -
  define x :: rat where "x = 1000 / of_int stride"
  define k where "k = \<lceil>x\<rceil>"
  have s: "(0::rat) < of_int stride" "(1::rat) \<le> of_int stride" using assms(1) by simp_all
  have x: "0 < x" using s by (simp add: x_def)
  have xle: "x \<le> 1000" using s by (simp add: x_def pos_divide_le_eq)
  have xk: "x \<le> of_int k" "of_int k - 1 < x" unfolding k_def by linarith+
  have k: "1 \<le> k" "k \<le> 1000" using x xle unfolding k_def by (simp_all add: ceiling_le_iff)
  have "x < 2 powi 53" using xle by simp
  from binade_less [OF x this] have b52: "binade x \<le> 52" by simp
  have up: "round_binary64 x \<le> of_int k"
    using x xk(1) b52 by (rule round_binary64_le_int)
  have low: "of_int k - 1 < round_binary64 x"
  proof (cases "stride \<le> 1000")
    case True
    then have x1: "1 \<le> x" using s by (simp add: x_def pos_le_divide_eq)
    have "of_int (k - 1) * of_int stride < (1000::rat)"
      using xk(2) s by (simp add: x_def pos_less_divide_eq)
    then have "(of_int ((k - 1) * stride) :: rat) < of_int 1000" by simp
    then have "(k - 1) * stride < 1000" by (simp only: of_int_less_iff)
    then have "(k - 1) * stride + 1 \<le> 1000" by simp
    then have "(of_int ((k - 1) * stride + 1) :: rat) \<le> of_int 1000" by (simp only: of_int_le_iff)
    then have "(of_int k - 1) * of_int stride + 1 \<le> (1000::rat)" by simp
    then have "((of_int k - 1) * of_int stride + 1) / of_int stride \<le> 1000 / (of_int stride :: rat)"
      using s(1) by (intro divide_right_mono) simp_all
    moreover have "((of_int k - 1) * of_int stride + 1) / (of_int stride :: rat)
        = of_int k - 1 + 1 / of_int stride"
      using s(1) by (simp add: add_divide_distrib)
    ultimately have "of_int k - 1 + 1 / of_int stride \<le> x"
      by (simp only: x_def)
    moreover have "(1::rat) / 1000 \<le> 1 / of_int stride"
      using True s by (simp add: field_simps)
    ultimately have gap: "of_int k - 1 + 1 / 1000 \<le> x" by linarith
    have "(2::rat) powi 0 \<le> x" using x1 by simp
    then have b0: "0 \<le> binade x" by (rule binade_ge)
    have "x < 2 powi 10" using xle by simp
    from binade_less [OF x this] have b9: "binade x \<le> 9" by simp
    have "ulp64 x = 2 powi (binade x - 52)" using b0 by (simp add: ulp64_def max_def)
    also have "\<dots> \<le> 2 powi (9 - 52)" using b9 by (intro power_int_increasing) simp_all
    finally have "ulp64 x \<le> 1 / 2 ^ 43" by (simp add: power_int_minus_divide)
    moreover have "(1::rat) / 2 ^ 43 < 1 / 1000" by simp
    ultimately have "ulp64 x / 2 < 1 / 1000" by linarith
    with round_binary64_error [OF x] gap show ?thesis by linarith
  next
    case False
    then have "x < 1" using s by (simp add: x_def pos_divide_less_eq)
    with x have "k = 1" unfolding k_def by (intro ceiling_unique) simp_all
    moreover have "2 powi (- 1075) < x"
    proof -
      have "(of_int stride :: rat) < of_int (1000 * 2 ^ 1075)"
        using assms(2) by (simp only: of_int_less_iff)
      then have "(of_int stride :: rat) < 1000 * 2 ^ 1075" by simp
      then have "1 / 2 ^ 1075 < x" using s by (simp add: x_def field_simps)
      then show ?thesis by (simp add: power_int_minus_divide)
    qed
    then have "0 < round_binary64 x" by (rule round_binary64_positive)
    ultimately show ?thesis by simp
  qed
  have "dimension stride = Inr k"
    using assms(1) up low k by (intro dimension_of_round [where r = "round_binary64 x"]) (simp_all add: x_def)
  then show ?thesis by (simp add: k_def x_def)
qed

lemma dimension_underflow:
  assumes "1000 * 2 ^ 1075 \<le> stride"
  shows "dimension stride = Inr 0"
proof -
  define x :: rat where "x = 1000 / of_int stride"
  have "(0::int) < 1000 * 2 ^ 1075" by simp
  with assms have s0: "0 < stride" by linarith
  then have s: "(0::rat) < of_int stride" by simp
  have x: "0 < x" using s by (simp add: x_def)
  have "(of_int (1000 * 2 ^ 1075) :: rat) \<le> of_int stride"
    using assms by (simp only: of_int_le_iff)
  then have "(1000::rat) * 2 ^ 1075 \<le> of_int stride" by simp
  then have "x \<le> 1 / 2 ^ 1075" using s by (simp add: x_def field_simps)
  then have "x \<le> 2 powi (- 1075)" by (simp add: power_int_minus_divide)
  with x have "round_binary64 x = 0" by (rule round_binary64_underflow)
  then show ?thesis using s0
    by (intro dimension_of_round [where r = 0]) (simp_all add: x_def)
qed

subsection \<open>Slices\<close>

lemma length_every_nth:
  "0 < k \<Longrightarrow> length (every_nth k xs) = (length xs + k - 1) div k"
proof (induction k xs rule: every_nth.induct)
  case (1 k)
  then show ?case by simp
next
  case (2 k x xs)
  show ?case
  proof (cases "k - 1 \<le> length xs")
    case True
    with 2 have "length (every_nth k (x # xs)) = Suc (length xs div k)" by simp
    also have "\<dots> = (length xs + k) div k" using 2(2) by simp
    finally show ?thesis by simp
  next
    case False
    with 2 have "length (every_nth k (x # xs)) = Suc ((k - 1) div k)" by simp
    also have "\<dots> = 1" using 2(2) by simp
    also have "\<dots> = (length xs + k) div k" using False 2(2) by simp
    finally show ?thesis by simp
  qed
qed

lemma nth_every_nth:
  "0 < k \<Longrightarrow> i < length (every_nth k xs) \<Longrightarrow> every_nth k xs ! i = xs ! (i * k)"
proof (induction k xs arbitrary: i rule: every_nth.induct)
  case (1 k)
  then show ?case by simp
next
  case (2 k x xs)
  show ?case
  proof (cases i)
    case 0
    then show ?thesis by simp
  next
    case (Suc j)
    with 2 have j: "j < length (every_nth k (drop (k - 1) xs))" by simp
    then have ne: "drop (k - 1) xs \<noteq> []" by auto
    then have le: "k - 1 \<le> length xs" by simp
    have "every_nth k (x # xs) ! i = drop (k - 1) xs ! (j * k)"
      using 2(1) [OF 2(2) j] Suc by simp
    also have "\<dots> = xs ! (k - 1 + j * k)" using le by (simp add: nth_drop)
    also have "\<dots> = (x # xs) ! (i * k)" using Suc 2(2) by (cases k) (simp_all add: ac_simps)
    finally show ?thesis .
  qed
qed

lemma length_strided: "step \<noteq> 0 \<Longrightarrow> length (strided step xs) = slice_len step (length xs)"
  by (simp add: strided_def slice_len_def length_every_nth)

lemma nth_strided:
  "0 < step \<Longrightarrow> i < slice_len step (length xs) \<Longrightarrow> strided step xs ! i = xs ! (i * nat step)"
  by (simp add: strided_def slice_len_def length_every_nth nth_every_nth)

lemma ceiling_div_int:
  fixes n s :: int
  assumes "0 < s"
  shows "- (- n div s) = (n + s - 1) div s"
proof -
  define q r where "q = n div s" and "r = n mod s"
  have n: "n = r + q * s" by (simp add: q_def r_def)
  have r: "0 \<le> r" "r < s" using assms by (simp_all add: r_def)
  have l: "- n div s = (if r = 0 then - q else - q - 1)"
    using assms by (simp add: zdiv_zminus1_eq_if q_def r_def)
  have "n + s - 1 = r + s - 1 + q * s" by (simp add: n)
  then have "(n + s - 1) div s = (r + s - 1 + q * s) div s" by (simp only:)
  also have "\<dots> = q + (r + s - 1) div s" using assms by (simp only: div_mult_self1)
  also have "(r + s - 1) div s = (if r = 0 then 0 else 1)"
  proof (cases "r = 0")
    case True
    then show ?thesis using assms by simp
  next
    case False
    with r have "r + s - 1 = (r - 1) + 1 * s" "0 \<le> r - 1" "r - 1 < s" by simp_all
    then have "(r + s - 1) div s = 1 + (r - 1) div s" using assms
      by (metis div_mult_self1 less_irrefl)
    also have "(r - 1) div s = 0" using \<open>0 \<le> r - 1\<close> \<open>r - 1 < s\<close> by simp
    finally show ?thesis using False by simp
  qed
  finally show ?thesis by (simp add: l)
qed

lemma slice_len_ceiling:
  assumes "1 \<le> step"
  shows "int (slice_len step n) = \<lceil>(of_nat n :: rat) / of_int step\<rceil>"
proof -
  have "\<lceil>(of_nat n :: rat) / of_int step\<rceil> = \<lceil>(of_int (int n) :: rat) / of_int step\<rceil>" by simp
  also have "\<dots> = - (- int n div step)" by (simp only: ceiling_divide_eq_div)
  also have "\<dots> = (int n + step - 1) div step" using assms by (intro ceiling_div_int) simp
  also have "\<dots> = int ((n + nat step - 1) div nat step)"
    using assms by (simp add: zdiv_int of_nat_diff)
  finally show ?thesis using assms by (simp add: slice_len_def)
qed

lemma slice_len_one: "0 < n \<Longrightarrow> int n \<le> \<bar>step\<bar> \<Longrightarrow> slice_len step n = 1"
proof -
  assume a: "0 < n" "int n \<le> \<bar>step\<bar>"
  define k where "k = nat \<bar>step\<bar>"
  from a have k: "n \<le> k" "0 < k" by (simp_all add: k_def)
  then have "k \<le> n + k - 1" "n + k - 1 < 2 * k" using a(1) by simp_all
  then have "(n + k - 1) div k = 1"
    by (metis Suc_1 div_nat_eqI mult.commute mult_Suc_right nat_mult_1_right plus_1_eq_Suc)
  then show ?thesis by (simp add: slice_len_def k_def)
qed

lemma set_every_nth: "set (every_nth k xs) \<subseteq> set xs"
proof (induction k xs rule: every_nth.induct)
  case (1 k)
  then show ?case by simp
next
  case (2 k x xs)
  have "set (drop (k - 1) xs) \<subseteq> set xs" by (rule set_drop_subset)
  with 2 show ?case by auto
qed

lemma set_strided: "set (strided step xs) \<subseteq> set xs"
  using set_every_nth [of _ xs] set_every_nth [of _ "rev xs"] by (simp add: strided_def)

lemma wf_getitem_slice2:
  assumes "wf_ndarray a" and "getitem_slice2 step (Arr2 a) = Inr b"
  shows "wf_ndarray b \<and> shape0 b = slice_len step (shape0 a) \<and> shape1 b = slice_len step (shape1 a)"
proof -
  from assms(2) have s: "step \<noteq> 0"
    and b: "b = \<lparr>shape0 = slice_len step (shape0 a), shape1 = slice_len step (shape1 a),
                  rows = map (strided step) (strided step (rows a))\<rparr>"
    by (auto simp: getitem_slice2_def split: if_splits)
  have "length r = shape1 a" if "r \<in> set (strided step (rows a))" for r
    using that set_strided [of step "rows a"] assms(1) by (auto simp: wf_ndarray_def list_all_iff)
  then show ?thesis using assms(1) s
    by (simp add: b wf_ndarray_def length_strided list_all_iff)
qed

lemma length_concat_uniform: "\<forall>r\<in>set rs. length r = n \<Longrightarrow> length (concat rs) = length rs * n"
  by (induction rs) simp_all

lemma length_flatten: "wf_ndarray a \<Longrightarrow> length (flatten a) = shape0 a * shape1 a"
  using length_concat_uniform [of "rows a" "shape1 a"]
  by (simp add: flatten_def wf_ndarray_def list_all_iff)

lemma wf_np_zeros: "wf_ndarray (np_zeros m n)"
  by (simp add: wf_ndarray_def np_zeros_def list_all_iff)

lemma wf_swapaxes: "wf_ndarray (swapaxes a)"
  by (simp add: wf_ndarray_def swapaxes_def list_all_iff)

lemma column_swapaxes:
  "wf_ndarray a \<Longrightarrow> i < shape0 a \<Longrightarrow> column (swapaxes a) i = rows a ! i"
  by (auto simp: column_def swapaxes_def wf_ndarray_def list_all_iff intro!: nth_equalityI)

lemma mult_less_of_slice_len:
  fixes i k n :: nat
  assumes "0 < k" and "i < (n + k - 1) div k"
  shows "i * k < n"
proof -
  from assms(2) have "Suc i \<le> (n + k - 1) div k" by simp
  then have "Suc i * k \<le> n + k - 1" using assms(1) by (simp add: less_eq_div_iff_mult_less_eq)
  then show ?thesis using assms(1) by simp
qed

lemma nth_getitem_slice2:
  assumes "wf_ndarray a" and "0 < step" and "getitem_slice2 step (Arr2 a) = Inr b"
    and "i < shape0 b" and "j < shape1 b"
  shows "rows b ! i ! j = rows a ! (i * nat step) ! (j * nat step)"
proof -
  from assms(2,3) have b: "b = \<lparr>shape0 = slice_len step (shape0 a), shape1 = slice_len step (shape1 a),
                  rows = map (strided step) (strided step (rows a))\<rparr>"
    by (auto simp: getitem_slice2_def)
  from assms(1) have l: "length (rows a) = shape0 a" by (simp add: wf_ndarray_def)
  from assms(4) have i: "i < slice_len step (length (rows a))" by (simp add: b l)
  then have i': "i * nat step < length (rows a)"
    using assms(2) by (intro mult_less_of_slice_len) (simp_all add: slice_len_def)
  with assms(1) have lr: "length (rows a ! (i * nat step)) = shape1 a"
    by (simp add: wf_ndarray_def list_all_length)
  from i assms(2) have "rows b ! i = strided step (rows a ! (i * nat step))"
    by (simp add: b length_strided nth_strided)
  also have "\<dots> ! j = rows a ! (i * nat step) ! (j * nat step)"
    using assms(2,5) by (intro nth_strided) (simp_all add: b lr)
  finally show ?thesis .
qed

subsection \<open>The loop of \<open>load_kl11_sensitivity_matrix\<close>\<close>

lemma fill_rows_step:
  assumes "i < shape0 (sensitivity st)"
    and "stored_row np_load prefix stride (shape1 (sensitivity st)) i = Inr r"
  shows "fill_rows np_load prefix stride (i # is) st =
         fill_rows np_load prefix stride is
           \<lparr>loaded = loaded st @ [channel_file prefix i],
            sensitivity = (sensitivity st)\<lparr>rows := (rows (sensitivity st))[i := r]\<rparr>\<rparr>"
  using assms
  by (cases "channel_row np_load prefix stride i")
     (auto simp: stored_row_def setitem_row_def then_do_eq_Inr)

lemma fill_rows_fail:
  assumes "stored_row np_load prefix stride (shape1 (sensitivity st)) i = Inl e"
    and "i < shape0 (sensitivity st)"
  shows "fill_rows np_load prefix stride (i # is) st = Inl e"
  using assms
  by (cases "channel_row np_load prefix stride i";
      cases "broadcast_to (shape1 (sensitivity st)) (projr (channel_row np_load prefix stride i))")
     (auto simp: stored_row_def setitem_row_def)

lemma fill_rows_ok:
  assumes "\<forall>i\<in>set is. i < shape0 (sensitivity st)
             \<and> stored_row np_load prefix stride (shape1 (sensitivity st)) i = Inr (r i)"
  shows "fill_rows np_load prefix stride is st =
         Inr \<lparr>loaded = loaded st @ map (channel_file prefix) is,
              sensitivity = (sensitivity st)
                \<lparr>rows := fold (\<lambda>i rs. rs[i := r i]) is (rows (sensitivity st))\<rparr>\<rparr>"
  using assms
proof (induction "is" arbitrary: st)
  case Nil
  then show ?case by simp
next
  case (Cons i "is")
  let ?st = "\<lparr>loaded = loaded st @ [channel_file prefix i],
              sensitivity = (sensitivity st)\<lparr>rows := (rows (sensitivity st))[i := r i]\<rparr>\<rparr>"
  have "fill_rows np_load prefix stride (i # is) st = fill_rows np_load prefix stride is ?st"
    using Cons.prems by (intro fill_rows_step) simp_all
  also have "\<dots> = Inr \<lparr>loaded = loaded ?st @ map (channel_file prefix) is,
              sensitivity = (sensitivity ?st)
                \<lparr>rows := fold (\<lambda>i rs. rs[i := r i]) is (rows (sensitivity ?st))\<rparr>\<rparr>"
    using Cons.prems by (intro Cons.IH) simp
  finally show ?case by simp
qed


lemma fill_rows_Inr_D:
  assumes "fill_rows np_load prefix stride is st = Inr st'"
    and "\<forall>i\<in>set is. i < shape0 (sensitivity st)"
  shows "\<forall>i\<in>set is. \<exists>r. stored_row np_load prefix stride (shape1 (sensitivity st)) i = Inr r"
  using assms
proof (induction "is" arbitrary: st)
  case Nil
  then show ?case by simp
next
  case (Cons i "is")
  show ?case
  proof (cases "stored_row np_load prefix stride (shape1 (sensitivity st)) i")
    case (Inl e)
    with Cons.prems show ?thesis using fill_rows_fail [OF Inl, of "is"] by simp
  next
    case (Inr r)
    let ?st = "\<lparr>loaded = loaded st @ [channel_file prefix i],
                sensitivity = (sensitivity st)\<lparr>rows := (rows (sensitivity st))[i := r]\<rparr>\<rparr>"
    from Cons.prems have "fill_rows np_load prefix stride is ?st = Inr st'"
      using fill_rows_step [OF _ Inr, of "is"] by simp
    from Cons.IH [OF this] Cons.prems(2) Inr show ?thesis by simp
  qed
qed

lemma fold_update_upt:
  "n \<le> length rs \<Longrightarrow> fold (\<lambda>i rs. rs[i := r i]) [0..<n] rs = map r [0..<n] @ drop n rs"
proof (induction n)
  case 0
  then show ?case by simp
next
  case (Suc n)
  then have "fold (\<lambda>i rs. rs[i := r i]) [0..<Suc n] rs = (map r [0..<n] @ drop n rs)[n := r n]"
    by simp
  also have "\<dots> = map r [0..<n] @ (drop n rs)[0 := r n]"
    by (simp add: list_update_append)
  also have "(drop n rs)[0 := r n] = r n # drop (Suc n) rs"
    using Suc.prems by (simp add: Cons_nth_drop_Suc [symmetric])
  finally show ?case by simp
qed

lemma load_kl11_sensitivity_matrix_ok:
  assumes "dimension stride = Inr d"
    and "\<forall>i<2655. stored_row np_load (matrix_prefix reflections) stride (nat (d * d)) i = Inr (r i)"
  shows "load_kl11_sensitivity_matrix np_load reflections stride =
         Inr \<lparr>loaded = map (channel_file (matrix_prefix reflections)) [0..<2655],
              sensitivity = swapaxes \<lparr>shape0 = 2655, shape1 = nat (d * d), rows = map r [0..<2655]\<rparr>\<rparr>"
proof -
  let ?st = "\<lparr>loaded = [], sensitivity = np_zeros 2655 (nat (d * d)) :: 'a ndarray\<rparr>"
  have "fill_rows np_load (matrix_prefix reflections) stride [0..<2655] ?st =
        Inr \<lparr>loaded = loaded ?st @ map (channel_file (matrix_prefix reflections)) [0..<2655],
             sensitivity = (sensitivity ?st)
               \<lparr>rows := fold (\<lambda>i rs. rs[i := r i]) [0..<2655] (rows (sensitivity ?st))\<rparr>\<rparr>"
    using assms(2) by (intro fill_rows_ok) (simp add: np_zeros_def)
  moreover have "fold (\<lambda>i rs. rs[i := r i]) [0..<2655] (rows (sensitivity ?st)) = map r [0..<2655]"
    by (subst fold_update_upt) (simp_all add: np_zeros_def)
  ultimately have "fill_rows np_load (matrix_prefix reflections) stride [0..<2655] ?st =
        Inr \<lparr>loaded = map (channel_file (matrix_prefix reflections)) [0..<2655],
             sensitivity = \<lparr>shape0 = 2655, shape1 = nat (d * d), rows = map r [0..<2655]\<rparr>\<rparr>"
    by (simp add: np_zeros_def)
  then show ?thesis
    using assms(1) by (cases reflections) (simp_all add: load_kl11_sensitivity_matrix_def matrix_prefix_def Let_def)
qed

subsection \<open>Outcomes of \<open>load_kl11_sensitivity_matrix\<close>\<close>



lemma load_kl11_sensitivity_matrix_Inr_D:
  assumes "load_kl11_sensitivity_matrix np_load reflections stride = Inr st"
  shows "\<exists>d. dimension stride = Inr d
           \<and> (\<forall>i<2655. \<exists>r. stored_row np_load (matrix_prefix reflections) stride (nat (d * d)) i = Inr r)"
proof -
  from assms obtain d where d: "dimension stride = Inr d"
    by (cases "dimension stride") (simp_all add: load_kl11_sensitivity_matrix_def)
  let ?st = "\<lparr>loaded = [], sensitivity = np_zeros 2655 (nat (d * d)) :: 'a ndarray\<rparr>"
  from assms d obtain st' where
    "fill_rows np_load (matrix_prefix reflections) stride [0..<2655] ?st = Inr st'"
    by (cases reflections)
       (auto simp: load_kl11_sensitivity_matrix_def matrix_prefix_def Let_def then_do_eq_Inr)
  from fill_rows_Inr_D [OF this] have
    "\<forall>i\<in>set [0..<2655]. \<exists>r. stored_row np_load (matrix_prefix reflections) stride (nat (d * d)) i = Inr r"
    by (simp add: np_zeros_def)
  with d show ?thesis by auto
qed

lemma stored_row_exact:
  assumes "np_load (channel_file prefix i) = Inr (Arr2 a)" and "wf_ndarray a" and "stride \<noteq> 0"
    and "slice_len stride (shape0 a) * slice_len stride (shape1 a) = n"
  shows "\<exists>b. getitem_slice2 stride (Arr2 a) = Inr b
           \<and> channel_row np_load prefix stride i = Inr (flatten b)
           \<and> stored_row np_load prefix stride n i = Inr (flatten b)
           \<and> length (flatten b) = n"
proof -
  from assms(3) obtain b where b: "getitem_slice2 stride (Arr2 a) = Inr b"
    by (simp add: getitem_slice2_def)
  from wf_getitem_slice2 [OF assms(2) b] have "length (flatten b) = n"
    using assms(4) by (simp add: length_flatten)
  then show ?thesis using b assms(1)
    by (simp add: channel_row_def stored_row_def broadcast_to_def)
qed

lemma stored_row_broadcast:
  assumes "np_load (channel_file prefix i) = Inr (Arr2 a)" and "wf_ndarray a" and "stride \<noteq> 0"
    and "slice_len stride (shape0 a) * slice_len stride (shape1 a) = 1" and "n \<noteq> 1"
  shows "\<exists>b. getitem_slice2 stride (Arr2 a) = Inr b
           \<and> channel_row np_load prefix stride i = Inr (flatten b)
           \<and> length (flatten b) = 1
           \<and> stored_row np_load prefix stride n i = Inr (replicate n (hd (flatten b)))"
proof -
  from assms(3) obtain b where b: "getitem_slice2 stride (Arr2 a) = Inr b"
    by (simp add: getitem_slice2_def)
  from wf_getitem_slice2 [OF assms(2) b] have "length (flatten b) = 1"
    using assms(4) by (simp add: length_flatten)
  then show ?thesis using b assms(1,5)
    by (simp add: channel_row_def stored_row_def broadcast_to_def)
qed

subsection \<open>Files of 1000 by 1000 entries\<close>

lemma shape_np_zeros [simp]: "shape0 (np_zeros m n) = m" "shape1 (np_zeros m n) = n"
  by (simp_all add: np_zeros_def)

lemma shape_swapaxes [simp]: "shape0 (swapaxes a) = shape1 a" "shape1 (swapaxes a) = shape0 a"
  by (simp_all add: swapaxes_def)

lemma ceiling_1000_pos: "1 \<le> stride \<Longrightarrow> 1 \<le> \<lceil>(1000::rat) / of_int stride\<rceil>"
proof -
  assume "1 \<le> stride"
  then have "(0::rat) < 1000 / of_int stride" by simp
  then show ?thesis by (simp add: ceiling_le_iff)
qed

lemma stored_row_1000:
  assumes "1 \<le> stride"
    and "np_load (channel_file prefix i) = Inr (Arr2 a)"
    and "wf_ndarray a" and "shape0 a = 1000" and "shape1 a = 1000"
  shows "\<exists>b. getitem_slice2 stride (Arr2 a) = Inr b
           \<and> channel_row np_load prefix stride i = Inr (flatten b)
           \<and> stored_row np_load prefix stride
                 (nat (\<lceil>(1000::rat) / of_int stride\<rceil> * \<lceil>(1000::rat) / of_int stride\<rceil>)) i
               = Inr (flatten b)
           \<and> int (length (flatten b)) = \<lceil>(1000::rat) / of_int stride\<rceil> * \<lceil>(1000::rat) / of_int stride\<rceil>"
proof -
  let ?c = "\<lceil>(1000::rat) / of_int stride\<rceil>"
  have c: "int (slice_len stride 1000) = ?c"
    using slice_len_ceiling [OF assms(1), of 1000] by simp
  then have "nat (?c * ?c) = slice_len stride 1000 * slice_len stride 1000"
    by (metis nat_int of_nat_mult)
  then have n: "slice_len stride (shape0 a) * slice_len stride (shape1 a) = nat (?c * ?c)"
    by (simp add: assms(4,5))
  from assms(1) have "stride \<noteq> 0" by simp
  from stored_row_exact [of np_load prefix i a stride, OF assms(2,3) this n] c show ?thesis
    by (auto simp: assms(4,5) simp flip: of_nat_mult)
qed

lemma nth_concat_uniform:
  "\<forall>x\<in>set xs. length x = n \<Longrightarrow> r < length xs \<Longrightarrow> c < n
    \<Longrightarrow> concat xs ! (r * n + c) = xs ! r ! c"
proof (induction xs arbitrary: r)
  case Nil
  then show ?case by simp
next
  case (Cons x xs)
  show ?case
  proof (cases r)
    case 0
    with Cons.prems show ?thesis by (simp add: nth_append)
  next
    case (Suc r')
    with Cons.prems have "concat (x # xs) ! (r * n + c) = concat xs ! (r' * n + c)"
      by (simp add: nth_append)
    also have "\<dots> = xs ! r' ! c" using Cons.prems Suc by (intro Cons.IH) simp_all
    finally show ?thesis using Suc by simp
  qed
qed

lemma nth_flatten:
  "wf_ndarray a \<Longrightarrow> r < shape0 a \<Longrightarrow> c < shape1 a
    \<Longrightarrow> flatten a ! (r * shape1 a + c) = rows a ! r ! c"
  using nth_concat_uniform [of "rows a" "shape1 a" r c]
  by (simp add: flatten_def wf_ndarray_def list_all_iff)

lemma nth_swapaxes:
  "p < shape1 a \<Longrightarrow> i < shape0 a \<Longrightarrow> rows (swapaxes a) ! p ! i = rows a ! i ! p"
  by (simp add: swapaxes_def)

lemma channel_row_1000_nth:
  assumes "1 \<le> stride"
    and "np_load (channel_file prefix i) = Inr (Arr2 a)"
    and "wf_ndarray a" and "shape0 a = 1000" and "shape1 a = 1000"
    and "int r < \<lceil>(1000::rat) / of_int stride\<rceil>" and "int c < \<lceil>(1000::rat) / of_int stride\<rceil>"
  shows "projr (channel_row np_load prefix stride i) ! (r * nat \<lceil>(1000::rat) / of_int stride\<rceil> + c)
       = rows a ! (r * nat stride) ! (c * nat stride)"
proof -
  from assms(1) obtain b where b: "getitem_slice2 stride (Arr2 a) = Inr b"
    by (auto simp: getitem_slice2_def)
  note wb = wf_getitem_slice2 [OF assms(3) b]
  have sl: "int (slice_len stride 1000) = \<lceil>(1000::rat) / of_int stride\<rceil>"
    using slice_len_ceiling [OF assms(1), of 1000] by simp
  then have n: "nat \<lceil>(1000::rat) / of_int stride\<rceil> = slice_len stride 1000" by linarith
  from assms(6,7) sl have rc: "r < shape0 b" "c < shape1 b"
    using wb by (simp_all add: assms(4,5))
  have "channel_row np_load prefix stride i = Inr (flatten b)"
    by (simp add: channel_row_def assms(2) b)
  then have "projr (channel_row np_load prefix stride i) ! (r * nat \<lceil>(1000::rat) / of_int stride\<rceil> + c)
      = flatten b ! (r * shape1 b + c)"
    using wb by (simp add: n assms(5))
  also have "\<dots> = rows b ! r ! c" using wb rc by (intro nth_flatten) simp_all
  also have "\<dots> = rows a ! (r * nat stride) ! (c * nat stride)"
    using assms(1) rc by (intro nth_getitem_slice2 [OF assms(3) _ b]) simp_all
  finally show ?thesis .
qed

lemma load_kl11_sensitivity_matrix_1000:
  assumes "1 \<le> stride" and "stride < 1000 * 2 ^ 1075"
    and "\<forall>i<2655. \<exists>a. np_load (channel_file (matrix_prefix reflections) i) = Inr (Arr2 a)
           \<and> wf_ndarray a \<and> shape0 a = 1000 \<and> shape1 a = 1000"
  shows "\<exists>st. load_kl11_sensitivity_matrix np_load reflections stride = Inr st
           \<and> int (shape0 (sensitivity st)) = \<lceil>(1000::rat) / of_int stride\<rceil> ^ 2
           \<and> shape1 (sensitivity st) = 2655
           \<and> wf_ndarray (sensitivity st)
           \<and> sensitivity st =
               swapaxes \<lparr>shape0 = 2655, shape1 = nat (\<lceil>(1000::rat) / of_int stride\<rceil> ^ 2),
                  rows = map (\<lambda>i. projr (channel_row np_load (matrix_prefix reflections) stride i))
                           [0..<2655]\<rparr>
           \<and> (\<forall>i r c. i < 2655 \<and> int r < \<lceil>(1000::rat) / of_int stride\<rceil>
                  \<and> int c < \<lceil>(1000::rat) / of_int stride\<rceil> \<longrightarrow>
                (\<exists>a. np_load (channel_file (matrix_prefix reflections) i) = Inr (Arr2 a)
                   \<and> rows (sensitivity st) ! (r * nat \<lceil>(1000::rat) / of_int stride\<rceil> + c) ! i
                       = rows a ! (r * nat stride) ! (c * nat stride)))"
proof -
  let ?c = "\<lceil>(1000::rat) / of_int stride\<rceil>"
  let ?r = "\<lambda>i. projr (channel_row np_load (matrix_prefix reflections) stride i)"
  let ?A = "\<lparr>shape0 = 2655, shape1 = nat (?c * ?c), rows = map ?r [0..<2655]\<rparr>"
  let ?st = "\<lparr>loaded = map (channel_file (matrix_prefix reflections)) [0..<2655],
              sensitivity = swapaxes ?A\<rparr>"
  have d: "dimension stride = Inr ?c" using assms(1,2) by (rule dimension_exact)
  have "stored_row np_load (matrix_prefix reflections) stride (nat (?c * ?c)) i = Inr (?r i)"
    if "i < 2655" for i
  proof -
    from assms(3) that obtain a where
      "np_load (channel_file (matrix_prefix reflections) i) = Inr (Arr2 a)"
      "wf_ndarray a" "shape0 a = 1000" "shape1 a = 1000" by blast
    from stored_row_1000 [of stride np_load "matrix_prefix reflections" i a, OF assms(1) this]
    show ?thesis by auto
  qed
  then have "\<forall>i<2655. stored_row np_load (matrix_prefix reflections) stride (nat (?c * ?c)) i
      = Inr (?r i)" by simp
  from load_kl11_sensitivity_matrix_ok [OF d this]
  have st: "load_kl11_sensitivity_matrix np_load reflections stride = Inr ?st" .
  have pos: "1 \<le> ?c" by (rule ceiling_1000_pos [OF assms(1)])
  then have c0: "0 \<le> ?c" by linarith
  have el: "\<exists>a. np_load (channel_file (matrix_prefix reflections) i) = Inr (Arr2 a)
        \<and> rows (sensitivity ?st) ! (r * nat ?c + c) ! i = rows a ! (r * nat stride) ! (c * nat stride)"
    if "i < 2655" "int r < ?c" "int c < ?c" for i r c
  proof -
    from assms(3) that(1) obtain a where a:
      "np_load (channel_file (matrix_prefix reflections) i) = Inr (Arr2 a)"
      "wf_ndarray a" "shape0 a = 1000" "shape1 a = 1000" by blast
    from that(2,3) have "r < nat ?c" "c < nat ?c" by linarith+
    then have "r * nat ?c + c < Suc r * nat ?c" and "Suc r \<le> nat ?c" by simp_all
    moreover from this(2) have "Suc r * nat ?c \<le> nat ?c * nat ?c" by (rule mult_le_mono1)
    ultimately
    have "r * nat ?c + c < nat ?c * nat ?c" by linarith
    also have "\<dots> = nat (?c * ?c)" using c0 by (rule nat_mult_distrib [symmetric])
    finally have p: "r * nat ?c + c < shape1 ?A" by simp
    have "rows (swapaxes ?A) ! (r * nat ?c + c) ! i = rows ?A ! i ! (r * nat ?c + c)"
      using p that(1) by (intro nth_swapaxes) simp_all
    also have "\<dots> = ?r i ! (r * nat ?c + c)" using that(1) by simp
    also have "\<dots> = rows a ! (r * nat stride) ! (c * nat stride)"
      using assms(1) a that(2,3) by (rule channel_row_1000_nth)
    finally show ?thesis using a(1) by simp
  qed
  show ?thesis
    using st pos el by (intro exI [of _ ?st]) (simp add: wf_swapaxes power2_eq_square)
qed

lemma sensitivity_matrix_underflow:
  assumes "1000 * 2 ^ 1075 \<le> stride"
    and "\<forall>i<2655. \<exists>a. np_load (channel_file (matrix_prefix reflections) i) = Inr (Arr2 a)
           \<and> wf_ndarray a \<and> shape0 a = 1000 \<and> shape1 a = 1000"
  shows "load_kl11_sensitivity_matrix np_load reflections stride
     = Inr \<lparr>loaded = map (channel_file (matrix_prefix reflections)) [0..<2655],
            sensitivity = \<lparr>shape0 = 0, shape1 = 2655, rows = []\<rparr>\<rparr>"
proof -
  have d: "dimension stride = Inr 0" using assms(1) by (rule dimension_underflow)
  have "(1000::int) \<le> 1000 * 2 ^ 1075" by simp
  with assms(1) have big: "1000 \<le> stride" by linarith
  then have len: "slice_len stride 1000 = 1" by (intro slice_len_one) simp_all
  have "stored_row np_load (matrix_prefix reflections) stride (nat (0 * 0)) i = Inr []"
    if "i < 2655" for i
  proof -
    from assms(2) that obtain a where a:
      "np_load (channel_file (matrix_prefix reflections) i) = Inr (Arr2 a)"
      "wf_ndarray a" "shape0 a = 1000" "shape1 a = 1000" by blast
    have s: "stride \<noteq> 0" using big by simp
    have one: "slice_len stride (shape0 a) * slice_len stride (shape1 a) = 1"
      by (simp add: a len)
    from stored_row_broadcast [of np_load "matrix_prefix reflections" i a stride 0, OF a(1,2) s one]
    show ?thesis by auto
  qed
  then have "\<forall>i<2655. stored_row np_load (matrix_prefix reflections) stride (nat (0 * 0)) i
      = Inr ((\<lambda>i. []) i)" by simp
  from load_kl11_sensitivity_matrix_ok [OF d this]
  show ?thesis by (simp add: swapaxes_def)
qed

lemma zeros_files:
  "\<forall>i<2655. \<exists>a. (\<lambda>p. Inr (Arr2 (np_zeros 1000 1000 :: int ndarray)) :: py_error + int np_value)
            (channel_file (matrix_prefix reflections) i) = Inr (Arr2 a)
           \<and> wf_ndarray a \<and> shape0 a = 1000 \<and> shape1 a = 1000"
  by (simp add: wf_np_zeros)

lemma ceiling_1000_huge: "\<lceil>(1000::rat) / of_int (10 ^ 400)\<rceil> = 1"
  by (rule ceiling_unique) simp_all

lemma huge_stride: "(1000::int) * 2 ^ 1075 \<le> 10 ^ 400"
  by simp

lemma length_strided_1000:
  "1 \<le> stride \<Longrightarrow> length xs = 1000
    \<Longrightarrow> int (length (strided stride xs)) = \<lceil>(1000::rat) / of_int stride\<rceil>"
  using slice_len_ceiling [of stride 1000] by (simp add: length_strided)

lemma length_strided_single:
  "1000 \<le> stride \<Longrightarrow> length xs = 1000 \<Longrightarrow> length (strided stride xs) = 1"
  using slice_len_one [of 1000 stride] by (simp add: length_strided)

lemma slice_flatten_1000:
  assumes "1 \<le> stride" and "wf_ndarray a" and "shape0 a = 1000" and "shape1 a = 1000"
  shows "\<exists>b. getitem_slice2 stride (Arr2 a) = Inr b
           \<and> int (length (flatten b)) = \<lceil>(1000::rat) / of_int stride\<rceil> * \<lceil>(1000::rat) / of_int stride\<rceil>"
proof -
  from assms(1) obtain b where b: "getitem_slice2 stride (Arr2 a) = Inr b"
    by (auto simp: getitem_slice2_def)
  from wf_getitem_slice2 [OF assms(2) b] have
    "length (flatten b) = slice_len stride 1000 * slice_len stride 1000"
    by (simp add: length_flatten assms(3,4))
  then show ?thesis using b slice_len_ceiling [OF assms(1), of 1000] by simp
qed

subsection \<open>File names and the rows of a result\<close>

lemma channel_file_rf:
  "channel_file (matrix_prefix True) i
     = ''/work/mcarr/tasks/kl11/data/kl11_rf_sensitivity_matrix_'' @ str_nat i @ ''.npy''"
  by (simp add: channel_file_def matrix_prefix_def os_path_join_def base_path_def)

lemma channel_file_norf:
  "channel_file (matrix_prefix False) i
     = ''/work/mcarr/tasks/kl11/data/kl11_norf_sensitivity_matrix_'' @ str_nat i @ ''.npy''"
  by (simp add: channel_file_def matrix_prefix_def os_path_join_def base_path_def)

lemma digit_val_digit_char: "d < 10 \<Longrightarrow> digit_val (digit_char d) = d"
proof -
  assume "d < 10"
  then have "d \<in> {0, 1, 2, 3, 4, 5, 6, 7, 8, 9}" by auto
  then show ?thesis by (auto simp: digit_val_def digit_char_def)
qed

lemma nat_of_str_str_nat: "nat_of_str (str_nat n) = n"
proof (induction n rule: str_nat.induct)
  case (1 n)
  show ?case
  proof (cases "n < 10")
    case True
    then show ?thesis by (simp add: str_nat.simps [of n] nat_of_str_def digit_val_digit_char)
  next
    case False
    with 1 have "nat_of_str (str_nat (n div 10)) = n div 10" by simp
    with False show ?thesis
      by (simp add: str_nat.simps [of n] nat_of_str_def digit_val_digit_char)
  qed
qed

lemma inj_str_nat: "str_nat m = str_nat n \<Longrightarrow> m = n"
  by (metis nat_of_str_str_nat)

lemma distinct_channel_files:
  "distinct (map (channel_file (matrix_prefix reflections)) [0..<n])"
proof -
  have "inj (channel_file (matrix_prefix reflections))"
    by (cases reflections)
       (auto simp: inj_def channel_file_rf channel_file_norf dest: inj_str_nat)
  then show ?thesis by (simp add: distinct_map inj_on_def inj_def)
qed

lemma broadcast_to_Inr:
  "broadcast_to n v = Inr r
    \<Longrightarrow> length r = n \<and> (length v = n \<or> length v = 1)
        \<and> r = (if length v = n then v else replicate n (hd v))"
  by (auto simp: broadcast_to_def split: if_splits)

lemma stored_row_Inr:
  assumes "stored_row np_load prefix stride n i = Inr r"
  shows "length r = n
       \<and> (\<exists>v b. np_load (channel_file prefix i) = Inr v \<and> getitem_slice2 stride v = Inr b
             \<and> (length (flatten b) = n \<or> length (flatten b) = 1)
             \<and> r = (if length (flatten b) = n then flatten b else replicate n (hd (flatten b))))"
proof -
  from assms obtain w where w: "channel_row np_load prefix stride i = Inr w"
    and r: "broadcast_to n w = Inr r"
    by (auto simp: stored_row_def then_do_eq_Inr)
  from w obtain v b where "np_load (channel_file prefix i) = Inr v"
    "getitem_slice2 stride v = Inr b" "w = flatten b"
    by (auto simp: channel_row_def then_do_eq_Inr)
  with broadcast_to_Inr [OF r] show ?thesis by auto
qed

lemma load_kl11_sensitivity_matrix_Inr:
  assumes "load_kl11_sensitivity_matrix np_load reflections stride = Inr st"
  shows "loaded st = map (channel_file (matrix_prefix reflections)) [0..<2655]
       \<and> shape1 (sensitivity st) = 2655
       \<and> (\<exists>d. dimension stride = Inr d \<and> shape0 (sensitivity st) = nat (d * d))
       \<and> (\<forall>i<2655. \<exists>v b. np_load (channel_file (matrix_prefix reflections) i) = Inr v
             \<and> getitem_slice2 stride v = Inr b
             \<and> (length (flatten b) = shape0 (sensitivity st) \<or> length (flatten b) = 1)
             \<and> column (sensitivity st) i =
                 (if length (flatten b) = shape0 (sensitivity st) then flatten b
                  else replicate (shape0 (sensitivity st)) (hd (flatten b))))"
proof -
  from load_kl11_sensitivity_matrix_Inr_D [OF assms] obtain d where
    d: "dimension stride = Inr d"
    and ex: "\<forall>i<2655. \<exists>r. stored_row np_load (matrix_prefix reflections) stride (nat (d * d)) i = Inr r"
    by blast
  define r where
    "r = (\<lambda>i. projr (stored_row np_load (matrix_prefix reflections) stride (nat (d * d)) i))"
  have r: "stored_row np_load (matrix_prefix reflections) stride (nat (d * d)) i = Inr (r i)"
    if "i < 2655" for i using ex that by (auto simp: r_def)
  then have "\<forall>i<2655. stored_row np_load (matrix_prefix reflections) stride (nat (d * d)) i = Inr (r i)"
    by simp
  from load_kl11_sensitivity_matrix_ok [OF d this] assms
  have st: "st = \<lparr>loaded = map (channel_file (matrix_prefix reflections)) [0..<2655],
      sensitivity = swapaxes \<lparr>shape0 = 2655, shape1 = nat (d * d), rows = map r [0..<2655]\<rparr>\<rparr>"
    by simp
  let ?A = "\<lparr>shape0 = 2655, shape1 = nat (d * d), rows = map r [0..<2655]\<rparr>"
  have wf: "wf_ndarray ?A"
    using r stored_row_Inr by (fastforce simp: wf_ndarray_def list_all_iff)
  have col: "column (sensitivity st) i = r i" if "i < 2655" for i
    using column_swapaxes [OF wf, of i] that by (simp add: st)
  have "\<exists>v b. np_load (channel_file (matrix_prefix reflections) i) = Inr v
             \<and> getitem_slice2 stride v = Inr b
             \<and> (length (flatten b) = shape0 (sensitivity st) \<or> length (flatten b) = 1)
             \<and> column (sensitivity st) i =
                 (if length (flatten b) = shape0 (sensitivity st) then flatten b
                  else replicate (shape0 (sensitivity st)) (hd (flatten b)))"
    if "i < 2655" for i
  proof -
    from stored_row_Inr [OF r [OF that]] obtain v b where
      "np_load (channel_file (matrix_prefix reflections) i) = Inr v"
      "getitem_slice2 stride v = Inr b"
      "length (flatten b) = nat (d * d) \<or> length (flatten b) = 1"
      "r i = (if length (flatten b) = nat (d * d) then flatten b
              else replicate (nat (d * d)) (hd (flatten b)))" by blast
    then show ?thesis using col [OF that]
      by (intro exI [of _ v] exI [of _ b]) (simp add: st)
  qed
  moreover have "\<exists>d. dimension stride = Inr d \<and> shape0 (sensitivity st) = nat (d * d)"
    using d by (simp add: st)
  ultimately show ?thesis by (simp add: st)
qed

subsection \<open>Files of zeros\<close>

lemma every_nth_replicate:
  "0 < k \<Longrightarrow> every_nth k (replicate n x) = replicate ((n + k - 1) div k) x"
proof -
  assume k: "0 < k"
  have "\<forall>y\<in>set (every_nth k (replicate n x)). y = x"
    using set_every_nth [of k "replicate n x"] by auto
  then have "replicate (length (every_nth k (replicate n x))) x = every_nth k (replicate n x)"
    by (rule replicate_length_same)
  then show ?thesis using k by (simp add: length_every_nth)
qed

lemma strided_replicate:
  "step \<noteq> 0 \<Longrightarrow> strided step (replicate n x) = replicate (slice_len step n) x"
  by (simp add: strided_def slice_len_def every_nth_replicate)

lemma getitem_slice2_zeros:
  "step \<noteq> 0 \<Longrightarrow> getitem_slice2 step (Arr2 (np_zeros m n))
     = Inr (np_zeros (slice_len step m) (slice_len step n))"
  by (simp add: getitem_slice2_def np_zeros_def strided_replicate)

lemma flatten_zeros_1: "flatten (np_zeros (Suc 0) (Suc 0)) = [0]"
  by (simp add: flatten_def np_zeros_def)

lemma channel_row_zeros_single:
  assumes "1000 \<le> stride"
  shows "channel_row (\<lambda>p. Inr (Arr2 (np_zeros 1000 1000))) prefix stride i = Inr [0]"
proof -
  from assms have s: "stride \<noteq> 0" by simp
  from assms have "slice_len stride 1000 = 1" by (intro slice_len_one) simp_all
  then show ?thesis
    by (simp add: channel_row_def getitem_slice2_zeros [OF s] flatten_zeros_1)
qed

lemma str_nat_0: "str_nat 0 = ''0''"
  by (simp add: str_nat.simps [of 0] digit_char_def)

subsection \<open>Failures of a channel\<close>





subsection \<open>The camera\<close>

lemma load_kl11_camera_ok:
  assumes "load_calcam_calibration calibration_file = Inr (pixels_shape, origins, directions)"
    and "getitem_slice2 stride origins = Inr os" and "getitem_slice2 stride directions = Inr ds"
  shows "load_kl11_camera load_calcam_calibration par pls stride =
     Inr \<lparr>pixel_origins = os, pixel_directions = ds,
          pipelines =
            (if falsy pls
             then [PowerPipeline2D \<lparr>display_unsaturated_fraction = 96 / 100,
                       pipeline_name = ''Unfiltered Power (W)'', display_update_time = Some 15\<rparr>]
             else the pls),
          parent = par, spectral_bins = Some 15, pixel_samples = Some 1\<rparr>"
  using assms
  by (simp add: load_kl11_camera_def Let_def new_VectorCamera_def new_PowerPipeline2D_def)

lemma load_kl11_camera_Inr:
  assumes "load_kl11_camera load_calcam_calibration par pls stride = Inr cam"
  shows "\<exists>pixels_shape origins directions.
           load_calcam_calibration calibration_file = Inr (pixels_shape, origins, directions)
         \<and> getitem_slice2 stride origins = Inr (pixel_origins cam)
         \<and> getitem_slice2 stride directions = Inr (pixel_directions cam)"
proof -
  from assms obtain cfg where c: "load_calcam_calibration calibration_file = Inr cfg"
    by (cases "load_calcam_calibration calibration_file") (simp_all add: load_kl11_camera_def)
  obtain pixels_shape origins directions where cfg: "cfg = (pixels_shape, origins, directions)"
    by (cases cfg)
  from assms c cfg obtain os where os: "getitem_slice2 stride origins = Inr os"
    by (cases "getitem_slice2 stride origins") (simp_all add: load_kl11_camera_def Let_def)
  from assms c cfg os obtain ds where ds: "getitem_slice2 stride directions = Inr ds"
    by (cases "getitem_slice2 stride directions") (simp_all add: load_kl11_camera_def Let_def)
  from load_kl11_camera_ok [of load_calcam_calibration pixels_shape origins directions stride os ds par pls]
    c cfg os ds assms
  show ?thesis by auto
qed


subsection \<open>The voxel grid\<close>

lemma append_voxels_Inr:
  "append_voxels cells acc = Inr qs
    \<longleftrightarrow> (\<exists>new. qs = acc @ new \<and> map voxel_quad cells = map Inr new)"
proof (induction cells arbitrary: acc)
  case Nil
  then show ?case by auto
next
  case (Cons c cells)
  show ?case
  proof (cases "voxel_quad c")
    case (Inl e)
    then show ?thesis by (auto simp: map_eq_Cons_conv)
  next
    case (Inr q)
    have "append_voxels (c # cells) acc = Inr qs
        \<longleftrightarrow> (\<exists>new. qs = (acc @ [q]) @ new \<and> map voxel_quad cells = map Inr new)"
      using Inr Cons.IH [of "acc @ [q]"] by simp
    also have "\<dots> \<longleftrightarrow> (\<exists>new. qs = acc @ new \<and> map voxel_quad (c # cells) = map Inr new)"
    proof
      assume "\<exists>new. qs = (acc @ [q]) @ new \<and> map voxel_quad cells = map Inr new"
      then obtain new where "qs = acc @ (q # new)" "map voxel_quad (c # cells) = map Inr (q # new)"
        using Inr by auto
      then show "\<exists>new. qs = acc @ new \<and> map voxel_quad (c # cells) = map Inr new" by blast
    next
      assume "\<exists>new. qs = acc @ new \<and> map voxel_quad (c # cells) = map Inr new"
      then obtain new where n: "qs = acc @ new" "map voxel_quad (c # cells) = map Inr new" by blast
      then obtain q' new' where new: "new = q' # new'" by (cases new) auto
      with n(2) Inr have "q' = q" "map voxel_quad cells = map Inr new'" by simp_all
      with n(1) new show "\<exists>new. qs = (acc @ [q]) @ new \<and> map voxel_quad cells = map Inr new"
        by simp
    qed
    finally show ?thesis .
  qed
qed

lemma append_voxels_failure:
  "voxel_quad c = Inl e \<Longrightarrow> \<forall>c'\<in>set pre. \<exists>q. voxel_quad c' = Inr q
    \<Longrightarrow> append_voxels (pre @ c # post) acc = Inl e"
  by (induction pre arbitrary: acc) auto

lemma voxel_quad_Inr:
  "voxel_quad voxel = Inr (v1, v2, v3, v4)
    \<longleftrightarrow> corner voxel ''p1'' = Inr v1 \<and> corner voxel ''p2'' = Inr v2
        \<and> corner voxel ''p3'' = Inr v3 \<and> corner voxel ''p4'' = Inr v4"
  by (auto simp: voxel_quad_def then_do_eq_Inr)

lemma corner_Inr:
  "corner voxel key = Inr (Point2D x y)
    \<longleftrightarrow> (\<exists>p a b. getitem_key voxel key = Inr p \<and> getitem_index p 0 = Inr a
          \<and> getitem_index p 1 = Inr b \<and> py_float a = Inr x \<and> py_float b = Inr y)"
  by (auto simp: corner_def then_do_eq_Inr)

lemma load_kl11_voxel_grid_cells:
  assumes "read_json (os_path_join (fst (os_path_split module_file)) ''kl11_voxel_grid.json'')
             = Inr grid_description"
    and "getitem_key grid_description ''cells'' = Inr (JArr cells)"
  shows "load_kl11_voxel_grid module_file read_json par name = Inr grid
     \<longleftrightarrow> map voxel_quad cells = map Inr (grid_voxels grid)
         \<and> grid_parent grid = par \<and> grid_name grid = name"
  using assms
  by (cases grid)
     (auto simp: load_kl11_voxel_grid_def Let_def py_iter_def then_do_eq_Inr append_voxels_Inr)


lemma load_kl11_voxel_grid_cells_failure:
  "read_json (os_path_join (fst (os_path_split module_file)) ''kl11_voxel_grid.json'') = Inr g
    \<Longrightarrow> getitem_key g ''cells'' = Inl e
    \<Longrightarrow> load_kl11_voxel_grid module_file read_json par name = Inl e"
  by (simp add: load_kl11_voxel_grid_def Let_def)

lemma load_kl11_voxel_grid_voxel_failure:
  "read_json (os_path_join (fst (os_path_split module_file)) ''kl11_voxel_grid.json'') = Inr g
    \<Longrightarrow> getitem_key g ''cells'' = Inr (JArr (pre @ c # post))
    \<Longrightarrow> \<forall>c'\<in>set pre. \<exists>q. voxel_quad c' = Inr q
    \<Longrightarrow> voxel_quad c = Inl e
    \<Longrightarrow> load_kl11_voxel_grid module_file read_json par name = Inl e"
  by (simp add: load_kl11_voxel_grid_def Let_def py_iter_def append_voxels_failure)

lemma py_float_int:
  assumes "0 < k" and "k < 2 ^ 53"
  shows "py_float (JNum (of_int k)) = Inr (of_int k)"
proof -
  from assms(2) have "(of_int k :: rat) < of_int (2 ^ 53)" by (simp only: of_int_less_iff)
  then have b: "(of_int k :: rat) < 2 ^ 53" by simp
  with assms(1) have r: "round_binary64 (of_int k) = of_int k" by (rule round_binary64_of_int)
  have "(2::rat) ^ 53 < 2 ^ 1024" by simp
  with b assms(1) have "\<not> (2::rat) ^ 1024 \<le> \<bar>of_int k\<bar>" by simp
  then show ?thesis by (simp add: py_float_def r)
qed

subsection \<open>The profile mask\<close>

lemma select_map: "select (map P xs) xs = filter P xs"
  by (induction xs) (simp_all add: select_def)

lemma select_zip:
  "length ps = length xs
    \<Longrightarrow> select (map P ps) xs = map snd (filter (\<lambda>(p, x). P p) (zip ps xs))"
  by (induction ps xs rule: list_induct2) (simp_all add: select_def)

lemma not_float_le_iff: "\<not> float_le p (Finite c) \<longleftrightarrow> float_gt p (Finite c) \<or> p = NaN"
  by (cases p) auto

lemma masked_signal_Arr1:
  assumes "sal_get (DATA_PATH PULSE_PLASMA user ''PRFL'' dtype sequence) = Inr sig"
    and "squeeze (data sig) = Arr1 xs" and "length xs = length psi"
  shows "masked_signal sal_get dtype (psi_mask psi)
       = Inr (Arr1 (map snd (filter (\<lambda>(p, x). float_le p (Finite 1)) (zip psi xs))))"
  using assms by (simp add: masked_signal_def getitem_mask_def psi_mask_def select_zip)

lemma profiles_Inr:
  assumes "profiles sal_get = Inr pd"
  shows "\<exists>s psi. sal_get (DATA_PATH PULSE_PLASMA user ''PRFL'' ''C6'' sequence) = Inr s
     \<and> getitem_list (dimensions s) 1 = Inr psi
     \<and> psi_coord pd = select (psi_mask psi) psi
     \<and> masked_signal sal_get ''VT'' (psi_mask psi) = Inr (flow_velocity_tor_data pd)
     \<and> masked_signal sal_get ''TI'' (psi_mask psi) = Inr (ion_temperature_data pd)
     \<and> masked_signal sal_get ''NE'' (psi_mask psi) = Inr (electron_density_data pd)
     \<and> masked_signal sal_get ''C6'' (psi_mask psi) = Inr (density_c6_data pd)"
  using assms by (auto simp: profiles_def Let_def then_do_eq_Inr)


section \<open>The claims\<close>

subsection \<open>C1: shape of the sensitivity matrix\<close>

text \<open>
  Claim C1, as amended.  For every stride with \<open>1 \<le> stride < 1000 * 2 ^ 1075\<close>, when every
  per-channel file holds a 1000 by 1000 array, \<open>load_kl11_sensitivity_matrix\<close> returns a
  two-dimensional array of shape \<open>(\<lceil>1000 / stride\<rceil>\<^sup>2, 2655)\<close>: the transpose of the
  \<open>(2655, dimension * dimension)\<close> array whose row \<open>i\<close> is the strided, flattened array of
  channel \<open>i\<close>.  Entry \<open>(r * dimension + c, i)\<close> of the result is entry
  \<open>(r * stride, c * stride)\<close> of the array of channel \<open>i\<close>.  The upper bound on the stride is
  needed: see the counterexample below.
\<close>

theorem sensitivity_matrix_shape:
  assumes "1 \<le> stride" and "stride < 1000 * 2 ^ 1075"
    and "\<forall>i<2655. \<exists>a. np_load (channel_file (matrix_prefix reflections) i) = Inr (Arr2 a)
           \<and> wf_ndarray a \<and> shape0 a = 1000 \<and> shape1 a = 1000"
  shows "\<exists>st. load_kl11_sensitivity_matrix np_load reflections stride = Inr st
           \<and> int (shape0 (sensitivity st)) = \<lceil>(1000::rat) / of_int stride\<rceil> ^ 2
           \<and> shape1 (sensitivity st) = 2655
           \<and> wf_ndarray (sensitivity st)
           \<and> sensitivity st =
               swapaxes \<lparr>shape0 = 2655, shape1 = nat (\<lceil>(1000::rat) / of_int stride\<rceil> ^ 2),
                  rows = map (\<lambda>i. projr (channel_row np_load (matrix_prefix reflections) stride i))
                           [0..<2655]\<rparr>
           \<and> (\<forall>i r c. i < 2655 \<and> int r < \<lceil>(1000::rat) / of_int stride\<rceil>
                  \<and> int c < \<lceil>(1000::rat) / of_int stride\<rceil> \<longrightarrow>
                (\<exists>a. np_load (channel_file (matrix_prefix reflections) i) = Inr (Arr2 a)
                   \<and> rows (sensitivity st) ! (r * nat \<lceil>(1000::rat) / of_int stride\<rceil> + c) ! i
                       = rows a ! (r * nat stride) ! (c * nat stride)))"
  using assms by (rule load_kl11_sensitivity_matrix_1000)

text \<open>
  Witness for C1: stride 3 and files of zeros give a matrix of shape \<open>(334\<^sup>2, 2655)\<close>.
\<close>

theorem sensitivity_matrix_shape_witness:
  "(1::int) \<le> 3 \<and> (3::int) < 1000 * 2 ^ 1075
   \<and> (\<exists>st. load_kl11_sensitivity_matrix (\<lambda>p. Inr (Arr2 (np_zeros 1000 1000 :: int ndarray))) True 3
              = Inr st
         \<and> shape0 (sensitivity st) = 111556 \<and> shape1 (sensitivity st) = 2655)"
proof -
  have c: "\<lceil>(1000::rat) / 3\<rceil> = 334" by (rule ceiling_unique) simp_all
  from sensitivity_matrix_shape [of 3 "\<lambda>p. Inr (Arr2 (np_zeros 1000 1000))" True, OF _ _ zeros_files]
  obtain st where
    "load_kl11_sensitivity_matrix (\<lambda>p. Inr (Arr2 (np_zeros 1000 1000 :: int ndarray))) True 3 = Inr st"
    "int (shape0 (sensitivity st)) = \<lceil>(1000::rat) / of_int 3\<rceil> ^ 2"
    "shape1 (sensitivity st) = 2655"
    by auto
  then show ?thesis by (auto simp: c)
qed

text \<open>
  Counterexample to C1 as stated (every stride from 1 on).  For the stride \<open>10 ^ 400\<close> the
  float quotient \<^verbatim>\<open>1000 / stride\<close> underflows to \<open>0.0\<close>, so \<open>dimension\<close> is 0 and the
  rows of \<^verbatim>\<open>sensitivity\<close> are empty; each file is sliced to a single element, which numpy
  broadcasts into the empty row without an error.  The result has shape \<open>(0, 2655)\<close>, where
  the claim promises \<open>(\<lceil>1000 / stride\<rceil>\<^sup>2, 2655) = (1, 2655)\<close>.
\<close>

theorem sensitivity_matrix_shape_counterexample:
  "load_kl11_sensitivity_matrix (\<lambda>p. Inr (Arr2 (np_zeros 1000 1000 :: int ndarray))) True (10 ^ 400)
     = Inr \<lparr>loaded = map (channel_file (matrix_prefix True)) [0..<2655],
            sensitivity = \<lparr>shape0 = 0, shape1 = 2655, rows = []\<rparr>\<rparr>
   \<and> \<lceil>(1000::rat) / of_int (10 ^ 400)\<rceil> ^ 2 = (1::int)"
proof
  show "load_kl11_sensitivity_matrix (\<lambda>p. Inr (Arr2 (np_zeros 1000 1000 :: int ndarray))) True (10 ^ 400)
     = Inr \<lparr>loaded = map (channel_file (matrix_prefix True)) [0..<2655],
            sensitivity = \<lparr>shape0 = 0, shape1 = 2655, rows = []\<rparr>\<rparr>"
    using huge_stride zeros_files by (rule sensitivity_matrix_underflow)
  show "\<lceil>(1000::rat) / of_int (10 ^ 400)\<rceil> ^ 2 = (1::int)"
    by (simp only: ceiling_1000_huge power_one)
qed

subsection \<open>C2: the grid dimension and the length of a strided axis\<close>

text \<open>
  Claim C2, as amended.  For every stride from 1 on, striding a 1000-element axis with
  \<^verbatim>\<open>[::stride]\<close> yields exactly \<open>\<lceil>1000 / stride\<rceil>\<close> elements.  For every stride with
  \<open>1 \<le> stride < 1000 * 2 ^ 1075\<close>, the dimension the function computes as
  \<^verbatim>\<open>int(np.ceil(1000 / stride))\<close> in floating point equals the exact integer ceiling of
  1000 divided by stride, and hence the preallocated row length \<open>dimension * dimension\<close>
  is the length of each strided and flattened 1000 by 1000 array.
\<close>

theorem grid_dimension_is_ceiling:
  assumes "1 \<le> stride" and "length xs = 1000"
    and "wf_ndarray a" and "shape0 a = 1000" and "shape1 a = 1000"
  shows "int (length (strided stride xs)) = \<lceil>(1000::rat) / of_int stride\<rceil>
       \<and> (stride < 1000 * 2 ^ 1075 \<longrightarrow>
            dimension stride = Inr \<lceil>(1000::rat) / of_int stride\<rceil>
          \<and> (\<exists>d b. dimension stride = Inr d \<and> getitem_slice2 stride (Arr2 a) = Inr b
                 \<and> length (flatten b) = shape1 (np_zeros 2655 (nat (d * d)) :: 'b::zero ndarray)))"
proof (intro conjI impI)
  show "int (length (strided stride xs)) = \<lceil>(1000::rat) / of_int stride\<rceil>"
    using assms(1,2) by (rule length_strided_1000)
next
  assume "stride < 1000 * 2 ^ 1075"
  with assms(1) show d: "dimension stride = Inr \<lceil>(1000::rat) / of_int stride\<rceil>"
    by (rule dimension_exact)
  from slice_flatten_1000 [OF assms(1,3,4,5)] obtain b where
    "getitem_slice2 stride (Arr2 a) = Inr b"
    "int (length (flatten b)) = \<lceil>(1000::rat) / of_int stride\<rceil> * \<lceil>(1000::rat) / of_int stride\<rceil>"
    by blast
  with d show "\<exists>d b. dimension stride = Inr d \<and> getitem_slice2 stride (Arr2 a) = Inr b
                 \<and> length (flatten b) = shape1 (np_zeros 2655 (nat (d * d)) :: 'b::zero ndarray)"
    by (metis nat_int shape_np_zeros(2))
qed

text \<open>Witness for C2: stride 7 gives \<open>\<lceil>1000 / 7\<rceil> = 143\<close> and rows of \<open>143\<^sup>2 = 20449\<close> elements.\<close>

theorem grid_dimension_is_ceiling_witness:
  "(1::int) \<le> 7 \<and> length (replicate 1000 (0::int)) = 1000
   \<and> int (length (strided 7 (replicate 1000 (0::int)))) = 143
   \<and> (7::int) < 1000 * 2 ^ 1075
   \<and> dimension 7 = Inr 143
   \<and> (\<exists>b. getitem_slice2 7 (Arr2 (np_zeros 1000 1000 :: int ndarray)) = Inr b
         \<and> length (flatten b) = 20449)"
proof -
  have c: "\<lceil>(1000::rat) / 7\<rceil> = 143" by (rule ceiling_unique) simp_all
  have b: "(7::int) < 1000 * 2 ^ 1075" by simp
  have "int (length (strided 7 (replicate 1000 (0::int)))) = \<lceil>(1000::rat) / of_int 7\<rceil>
       \<and> ((7::int) < 1000 * 2 ^ 1075 \<longrightarrow>
            dimension 7 = Inr \<lceil>(1000::rat) / of_int 7\<rceil>
          \<and> (\<exists>d b. dimension 7 = Inr d
                 \<and> getitem_slice2 7 (Arr2 (np_zeros 1000 1000 :: int ndarray)) = Inr b
                 \<and> length (flatten b) = shape1 (np_zeros 2655 (nat (d * d)) :: int ndarray)))"
    by (rule grid_dimension_is_ceiling) (simp_all add: wf_np_zeros)
  with b have l: "int (length (strided 7 (replicate 1000 (0::int)))) = 143"
    and d: "dimension 7 = Inr 143"
    and e: "\<exists>d b. dimension 7 = Inr d
          \<and> getitem_slice2 7 (Arr2 (np_zeros 1000 1000 :: int ndarray)) = Inr b
          \<and> length (flatten b) = shape1 (np_zeros 2655 (nat (d * d)) :: int ndarray)"
    using c by auto
  from e obtain d' b' where "dimension 7 = Inr d'"
    and s: "getitem_slice2 7 (Arr2 (np_zeros 1000 1000 :: int ndarray)) = Inr b'"
    and f: "length (flatten b') = shape1 (np_zeros 2655 (nat (d' * d')) :: int ndarray)" by blast
  with d have "d' = 143" by simp
  with f have "length (flatten b') = 20449" by simp
  with s l d b show ?thesis by simp
qed

text \<open>
  Counterexample to C2 as stated (every stride from 1 on).  For the stride \<open>10 ^ 400\<close>,
  \<^verbatim>\<open>1000 / stride\<close> is \<open>0.0\<close> in binary64, so \<^verbatim>\<open>int(np.ceil(1000 / stride))\<close> is 0, while
  the exact ceiling of the quotient is 1 and the strided axis has one element.
\<close>

theorem grid_dimension_is_ceiling_counterexample:
  "dimension (10 ^ 400) = Inr 0
   \<and> \<lceil>(1000::rat) / of_int (10 ^ 400)\<rceil> = 1
   \<and> length (strided (10 ^ 400) (replicate 1000 (0::int))) = 1"
proof (intro conjI)
  show "dimension (10 ^ 400) = Inr 0" using huge_stride by (rule dimension_underflow)
  show "\<lceil>(1000::rat) / of_int (10 ^ 400)\<rceil> = 1" by (rule ceiling_1000_huge)
  have "(1000::int) \<le> 10 ^ 400" by simp
  then show "length (strided (10 ^ 400) (replicate 1000 (0::int))) = 1"
    by (rule length_strided_single) simp
qed

subsection \<open>C3: the normalised-flux mask\<close>

text \<open>
  Claim C3, as amended.  Whenever the script obtains the profile data, the mask
  \<^verbatim>\<open>psi_coord <= 1.0\<close> retains exactly the samples of the flux coordinate that compare
  \<^verbatim>\<open><= 1.0\<close>, in their order: every retained value is \<open>\<le> 1.0\<close>, every sample greater than
  1.0 is removed, and so is every NaN sample (a NaN is neither \<open>\<le> 1.0\<close> nor \<open>> 1.0\<close>); a
  removed sample is greater than 1.0 or a NaN.  The same mask is applied to each of the four
  fetched signals VT, TI, NE and C6 before interpolation: of a one-dimensional signal, sample
  \<open>k\<close> is kept exactly when sample \<open>k\<close> of the flux coordinate is \<open>\<le> 1.0\<close>.
\<close>

theorem psi_mask_excludes_outside:
  assumes "profiles sal_get = Inr pd"
  shows "\<exists>s psi. sal_get (DATA_PATH PULSE_PLASMA user ''PRFL'' ''C6'' sequence) = Inr s
     \<and> getitem_list (dimensions s) 1 = Inr psi
     \<and> psi_coord pd = filter (\<lambda>p. float_le p (Finite 1)) psi
     \<and> (\<forall>p\<in>set (psi_coord pd). float_le p (Finite 1))
     \<and> (\<forall>p\<in>set psi. float_gt p (Finite 1) \<or> p = NaN \<longrightarrow> p \<notin> set (psi_coord pd))
     \<and> (\<forall>p\<in>set psi. p \<notin> set (psi_coord pd) \<longrightarrow> float_gt p (Finite 1) \<or> p = NaN)
     \<and> (\<forall>k<length psi. psi_mask psi ! k \<longleftrightarrow> float_le (psi ! k) (Finite 1))
     \<and> masked_signal sal_get ''VT'' (psi_mask psi) = Inr (flow_velocity_tor_data pd)
     \<and> masked_signal sal_get ''TI'' (psi_mask psi) = Inr (ion_temperature_data pd)
     \<and> masked_signal sal_get ''NE'' (psi_mask psi) = Inr (electron_density_data pd)
     \<and> masked_signal sal_get ''C6'' (psi_mask psi) = Inr (density_c6_data pd)
     \<and> (\<forall>dtype sig xs. sal_get (DATA_PATH PULSE_PLASMA user ''PRFL'' dtype sequence) = Inr sig
            \<and> squeeze (data sig) = Arr1 xs \<and> length xs = length psi
          \<longrightarrow> masked_signal sal_get dtype (psi_mask psi)
              = Inr (Arr1 (map snd (filter (\<lambda>(p, x). float_le p (Finite 1)) (zip psi xs)))))"
proof -
  from profiles_Inr [OF assms] obtain s psi where
    s: "sal_get (DATA_PATH PULSE_PLASMA user ''PRFL'' ''C6'' sequence) = Inr s"
    and psi: "getitem_list (dimensions s) 1 = Inr psi"
    and sel: "psi_coord pd = select (psi_mask psi) psi"
    and sig: "masked_signal sal_get ''VT'' (psi_mask psi) = Inr (flow_velocity_tor_data pd)"
      "masked_signal sal_get ''TI'' (psi_mask psi) = Inr (ion_temperature_data pd)"
      "masked_signal sal_get ''NE'' (psi_mask psi) = Inr (electron_density_data pd)"
      "masked_signal sal_get ''C6'' (psi_mask psi) = Inr (density_c6_data pd)"
    by blast
  from sel have f: "psi_coord pd = filter (\<lambda>p. float_le p (Finite 1)) psi"
    by (simp add: psi_mask_def select_map)
  have 1: "\<forall>p\<in>set (psi_coord pd). float_le p (Finite 1)" by (simp add: f)
  have 2: "\<forall>p\<in>set psi. float_gt p (Finite 1) \<or> p = NaN \<longrightarrow> p \<notin> set (psi_coord pd)"
    using not_float_le_iff [of _ 1] by (auto simp: f)
  have 3: "\<forall>p\<in>set psi. p \<notin> set (psi_coord pd) \<longrightarrow> float_gt p (Finite 1) \<or> p = NaN"
    using not_float_le_iff [of _ 1] by (auto simp: f)
  have 4: "\<forall>k<length psi. psi_mask psi ! k \<longleftrightarrow> float_le (psi ! k) (Finite 1)"
    by (simp add: psi_mask_def)
  have 5: "\<forall>dtype sig xs. sal_get (DATA_PATH PULSE_PLASMA user ''PRFL'' dtype sequence) = Inr sig
            \<and> squeeze (data sig) = Arr1 xs \<and> length xs = length psi
          \<longrightarrow> masked_signal sal_get dtype (psi_mask psi)
              = Inr (Arr1 (map snd (filter (\<lambda>(p, x). float_le p (Finite 1)) (zip psi xs))))"
    using masked_signal_Arr1 by blast
  from s psi f 1 2 3 4 sig 5 show ?thesis by blast
qed

text \<open>
  Witness for C3: three flux samples \<open>0.5, 1.5, 1.0\<close> and signals \<open>10, 20, 30\<close>; the second
  sample is removed from the flux coordinate and from each signal.
\<close>

theorem psi_mask_excludes_outside_witness:
  "profiles (\<lambda>p. Inr \<lparr>dimensions = [[Finite 61], [Finite (1 / 2), Finite (3 / 2), Finite 1]],
                      data = \<lparr>shape0 = 1, shape1 = 3,
                               rows = [[Finite 10, Finite 20, Finite 30]]\<rparr>\<rparr>)
     = Inr \<lparr>psi_coord = [Finite (1 / 2), Finite 1],
            flow_velocity_tor_data = Arr1 [Finite 10, Finite 30],
            ion_temperature_data = Arr1 [Finite 10, Finite 30],
            electron_density_data = Arr1 [Finite 10, Finite 30],
            density_c6_data = Arr1 [Finite 10, Finite 30]\<rparr>
   \<and> psi_coord \<lparr>psi_coord = [Finite (1 / 2), Finite 1],
            flow_velocity_tor_data = Arr1 [Finite 10, Finite 30],
            ion_temperature_data = Arr1 [Finite 10, Finite 30],
            electron_density_data = Arr1 [Finite 10, Finite 30],
            density_c6_data = Arr1 [Finite 10, Finite 30]\<rparr>
       = filter (\<lambda>p. float_le p (Finite 1)) [Finite (1 / 2), Finite (3 / 2), Finite 1]"
proof -
  let ?s = "\<lparr>dimensions = [[Finite 61], [Finite (1 / 2), Finite (3 / 2), Finite 1]],
             data = \<lparr>shape0 = 1, shape1 = 3, rows = [[Finite 10, Finite 20, Finite 30]]\<rparr>\<rparr>"
  let ?pd = "\<lparr>psi_coord = [Finite (1 / 2), Finite 1],
            flow_velocity_tor_data = Arr1 [Finite 10, Finite 30],
            ion_temperature_data = Arr1 [Finite 10, Finite 30],
            electron_density_data = Arr1 [Finite 10, Finite 30],
            density_c6_data = Arr1 [Finite 10, Finite 30]\<rparr>"
  have p: "profiles (\<lambda>p. Inr ?s) = Inr ?pd"
    by (simp add: profiles_def masked_signal_def getitem_list_def getitem_mask_def squeeze_def
        psi_mask_def select_def Let_def)
  from psi_mask_excludes_outside [OF p] obtain s psi where
    "(\<lambda>p. Inr ?s) (DATA_PATH PULSE_PLASMA user ''PRFL'' ''C6'' sequence) = Inr s"
    "getitem_list (dimensions s) 1 = Inr psi"
    "psi_coord ?pd = filter (\<lambda>p. float_le p (Finite 1)) psi"
    by blast
  then have "psi_coord ?pd
      = filter (\<lambda>p. float_le p (Finite 1)) [Finite (1 / 2), Finite (3 / 2), Finite 1]"
    by (auto simp: getitem_list_def)
  with p show ?thesis by blast
qed

text \<open>
  Counterexample to C3 as stated (exactly the samples greater than 1.0 are excluded).  With
  the flux samples \<open>NaN, 0.5\<close> the mask is \<open>[False, True]\<close>: the first sample is excluded from
  the flux coordinate and from every signal, and it is not greater than 1.0.
\<close>

theorem psi_mask_excludes_outside_counterexample:
  "profiles (\<lambda>p. Inr \<lparr>dimensions = [[Finite 61], [NaN, Finite (1 / 2)]],
                      data = \<lparr>shape0 = 1, shape1 = 2, rows = [[Finite 5, Finite 7]]\<rparr>\<rparr>)
     = Inr \<lparr>psi_coord = [Finite (1 / 2)],
            flow_velocity_tor_data = Arr1 [Finite 7],
            ion_temperature_data = Arr1 [Finite 7],
            electron_density_data = Arr1 [Finite 7],
            density_c6_data = Arr1 [Finite 7]\<rparr>
   \<and> psi_mask [NaN, Finite (1 / 2)] = [False, True]
   \<and> \<not> float_gt NaN (Finite 1)"
  by (simp add: profiles_def masked_signal_def getitem_list_def getitem_mask_def squeeze_def
      psi_mask_def select_def Let_def)

subsection \<open>C4: which file fills which row\<close>

text \<open>
  Claim C4, as amended.  Whenever \<open>load_kl11_sensitivity_matrix\<close> returns, exactly 2655 files
  have been read, all different, in ascending order of the channel index, file \<open>i\<close> being
  \<^verbatim>\<open>kl11_rf_sensitivity_matrix_{i}.npy\<close> under the hard-coded base directory when
  \<^verbatim>\<open>reflections\<close> is true and \<^verbatim>\<open>kl11_norf_sensitivity_matrix_{i}.npy\<close> when it is
  false.  For every channel \<open>i\<close> below 2655, row \<open>i\<close> of the array before the transpose, which
  is column \<open>i\<close> of the returned matrix, is the array of file \<open>i\<close>, strided by
  \<^verbatim>\<open>[::stride, ::stride]\<close> and flattened in row-major order, provided this array has as many
  elements as the row (\<open>dimension * dimension\<close>, the number of rows of the returned matrix);
  otherwise it has exactly one element, and the row is that element repeated.
\<close>

theorem sensitivity_rows_from_files:
  assumes "load_kl11_sensitivity_matrix np_load reflections stride = Inr st"
  shows "loaded st =
           map (\<lambda>i. (if reflections then ''/work/mcarr/tasks/kl11/data/kl11_rf_sensitivity_matrix_''
                      else ''/work/mcarr/tasks/kl11/data/kl11_norf_sensitivity_matrix_'')
                     @ str_nat i @ ''.npy'') [0..<2655]
       \<and> length (loaded st) = 2655 \<and> distinct (loaded st)
       \<and> (\<exists>d. dimension stride = Inr d \<and> shape0 (sensitivity st) = nat (d * d))
       \<and> (\<forall>i<2655. \<exists>v b. np_load (loaded st ! i) = Inr v \<and> getitem_slice2 stride v = Inr b
             \<and> (length (flatten b) = shape0 (sensitivity st) \<or> length (flatten b) = 1)
             \<and> column (sensitivity st) i =
                 (if length (flatten b) = shape0 (sensitivity st) then flatten b
                  else replicate (shape0 (sensitivity st)) (hd (flatten b))))"
proof -
  note l = load_kl11_sensitivity_matrix_Inr [OF assms]
  have "channel_file (matrix_prefix reflections) =
      (\<lambda>i. (if reflections then ''/work/mcarr/tasks/kl11/data/kl11_rf_sensitivity_matrix_''
                      else ''/work/mcarr/tasks/kl11/data/kl11_norf_sensitivity_matrix_'')
                     @ str_nat i @ ''.npy'')"
  proof (rule ext)
    fix i
    show "channel_file (matrix_prefix reflections) i =
      (if reflections then ''/work/mcarr/tasks/kl11/data/kl11_rf_sensitivity_matrix_''
                      else ''/work/mcarr/tasks/kl11/data/kl11_norf_sensitivity_matrix_'')
                     @ str_nat i @ ''.npy''"
      by (cases reflections) (simp_all only: channel_file_rf channel_file_norf if_True if_False)
  qed
  with l have 1: "loaded st =
           map (\<lambda>i. (if reflections then ''/work/mcarr/tasks/kl11/data/kl11_rf_sensitivity_matrix_''
                      else ''/work/mcarr/tasks/kl11/data/kl11_norf_sensitivity_matrix_'')
                     @ str_nat i @ ''.npy'') [0..<2655]" by simp
  from l have 2: "length (loaded st) = 2655" "distinct (loaded st)"
    by (simp_all add: distinct_channel_files)
  from l have nth: "loaded st ! i = channel_file (matrix_prefix reflections) i" if "i < 2655" for i
    using that by simp
  from l have 4: "\<exists>d. dimension stride = Inr d \<and> shape0 (sensitivity st) = nat (d * d)" by blast
  from l nth have 3: "\<forall>i<2655. \<exists>v b. np_load (loaded st ! i) = Inr v \<and> getitem_slice2 stride v = Inr b
             \<and> (length (flatten b) = shape0 (sensitivity st) \<or> length (flatten b) = 1)
             \<and> column (sensitivity st) i =
                 (if length (flatten b) = shape0 (sensitivity st) then flatten b
                  else replicate (shape0 (sensitivity st)) (hd (flatten b)))"
    by simp
  from 1 2 3 4 show ?thesis by blast
qed

text \<open>
  Witness for C4: files of zeros and stride 1000; each file is strided to its single first
  element, which is row \<open>i\<close>.
\<close>

theorem sensitivity_rows_from_files_witness:
  "\<exists>st. load_kl11_sensitivity_matrix (\<lambda>p. Inr (Arr2 (np_zeros 1000 1000 :: int ndarray))) True 1000
           = Inr st
       \<and> length (loaded st) = 2655
       \<and> loaded st ! 0 = ''/work/mcarr/tasks/kl11/data/kl11_rf_sensitivity_matrix_0.npy''
       \<and> column (sensitivity st) 0 = [0]"
proof -
  let ?np = "\<lambda>p. Inr (Arr2 (np_zeros 1000 1000 :: int ndarray)) :: py_error + int np_value"
  have c: "\<lceil>(1000::rat) / 1000\<rceil> = 1" by simp
  from load_kl11_sensitivity_matrix_1000 [of 1000 ?np True, OF _ _ zeros_files]
  obtain st where st: "load_kl11_sensitivity_matrix ?np True 1000 = Inr st"
    and sh: "int (shape0 (sensitivity st)) = \<lceil>(1000::rat) / of_int 1000\<rceil> ^ 2"
    by auto
  from sh have sh1: "shape0 (sensitivity st) = 1" by simp
  from sensitivity_rows_from_files [OF st]
  have l: "loaded st = map (\<lambda>i. ''/work/mcarr/tasks/kl11/data/kl11_rf_sensitivity_matrix_''
              @ str_nat i @ ''.npy'') [0..<2655]"
    and n: "length (loaded st) = 2655"
    and r: "\<forall>i<2655. \<exists>v b. ?np (loaded st ! i) = Inr v \<and> getitem_slice2 1000 v = Inr b
             \<and> (length (flatten b) = shape0 (sensitivity st) \<or> length (flatten b) = 1)
             \<and> column (sensitivity st) i =
                 (if length (flatten b) = shape0 (sensitivity st) then flatten b
                  else replicate (shape0 (sensitivity st)) (hd (flatten b)))"
    by simp_all
  from l have l0: "loaded st ! 0 = ''/work/mcarr/tasks/kl11/data/kl11_rf_sensitivity_matrix_0.npy''"
    by (simp add: str_nat_0)
  have "slice_len 1000 1000 = 1" by (rule slice_len_one) simp_all
  then have "getitem_slice2 1000 (Arr2 (np_zeros 1000 1000 :: int ndarray)) = Inr (np_zeros (Suc 0) (Suc 0))"
    by (simp add: getitem_slice2_zeros)
  with r sh1 have "column (sensitivity st) 0 = [0]"
    by (auto simp: flatten_zeros_1)
  with st n l0 show ?thesis by blast
qed

text \<open>
  Counterexample to C4 as stated (row \<open>i\<close> always equals the strided, flattened file).  With
  1000 by 1000 files and the stride \<open>10 ^ 400\<close> the function returns, the strided and flattened
  array of channel 0 is \<open>[0]\<close>, and row 0 before the transpose (column 0 of the result) is
  empty, because \<open>dimension\<close> is 0 there.
\<close>

theorem sensitivity_rows_from_files_counterexample:
  "load_kl11_sensitivity_matrix (\<lambda>p. Inr (Arr2 (np_zeros 1000 1000 :: int ndarray))) True (10 ^ 400)
     = Inr \<lparr>loaded = map (channel_file (matrix_prefix True)) [0..<2655],
            sensitivity = \<lparr>shape0 = 0, shape1 = 2655, rows = []\<rparr>\<rparr>
   \<and> column \<lparr>shape0 = 0, shape1 = 2655, rows = [] :: int list list\<rparr> 0 = []
   \<and> channel_row (\<lambda>p. Inr (Arr2 (np_zeros 1000 1000 :: int ndarray))) (matrix_prefix True) (10 ^ 400) 0
     = Inr [0]"
proof (intro conjI)
  show "load_kl11_sensitivity_matrix (\<lambda>p. Inr (Arr2 (np_zeros 1000 1000 :: int ndarray))) True (10 ^ 400)
     = Inr \<lparr>loaded = map (channel_file (matrix_prefix True)) [0..<2655],
            sensitivity = \<lparr>shape0 = 0, shape1 = 2655, rows = []\<rparr>\<rparr>"
    using huge_stride zeros_files by (rule sensitivity_matrix_underflow)
  show "column \<lparr>shape0 = 0, shape1 = 2655, rows = [] :: int list list\<rparr> 0 = []"
    by (simp add: column_def)
  have "(1000::int) \<le> 10 ^ 400" by simp
  then show "channel_row (\<lambda>p. Inr (Arr2 (np_zeros 1000 1000 :: int ndarray))) (matrix_prefix True)
      (10 ^ 400) 0 = Inr [0]"
    by (rule channel_row_zeros_single)
qed

subsection \<open>C5: one quadrilateral per cell, in file order\<close>

text \<open>
  Claim C5.  \<open>load_kl11_voxel_grid\<close> reads the JSON grid description from
  \<^verbatim>\<open>kl11_voxel_grid.json\<close> beside the module.  When its \<^verbatim>\<open>'cells'\<close> member is a list,
  the function returns a grid exactly when every cell yields a quadrilateral, and then the
  grid's voxels are the quadrilaterals of the cells, one per cell and in file order; the
  quadrilateral of a cell is the 4-tuple of the points of its fields \<^verbatim>\<open>'p1'\<close>,
  \<^verbatim>\<open>'p2'\<close>, \<^verbatim>\<open>'p3'\<close>, \<^verbatim>\<open>'p4'\<close>, and the point of a field is \<open>(x, y)\<close> for the
  first two entries \<open>x\<close>, \<open>y\<close> of the field, converted to doubles (a conversion that leaves
  an integer below \<open>2 ^ 53\<close> as it is).  The grid object is built from this list and the
  \<^verbatim>\<open>parent\<close> and \<^verbatim>\<open>name\<close> arguments.
\<close>

theorem voxel_grid_from_cells:
  assumes "read_json (os_path_join (fst (os_path_split module_file)) ''kl11_voxel_grid.json'')
             = Inr grid_description"
    and "getitem_key grid_description ''cells'' = Inr (JArr cells)"
  shows "(load_kl11_voxel_grid module_file read_json par name = Inr grid
          \<longleftrightarrow> map voxel_quad cells = map Inr (grid_voxels grid)
              \<and> grid_parent grid = par \<and> grid_name grid = name)
       \<and> (load_kl11_voxel_grid module_file read_json par name = Inr grid
          \<longrightarrow> length (grid_voxels grid) = length cells
              \<and> (\<forall>k<length cells. voxel_quad (cells ! k) = Inr (grid_voxels grid ! k)))
       \<and> (voxel_quad voxel = Inr (v1, v2, v3, v4)
          \<longleftrightarrow> corner voxel ''p1'' = Inr v1 \<and> corner voxel ''p2'' = Inr v2
              \<and> corner voxel ''p3'' = Inr v3 \<and> corner voxel ''p4'' = Inr v4)
       \<and> (corner voxel key = Inr (Point2D x y)
          \<longleftrightarrow> (\<exists>p a b. getitem_key voxel key = Inr p \<and> getitem_index p 0 = Inr a
                \<and> getitem_index p 1 = Inr b \<and> py_float a = Inr x \<and> py_float b = Inr y))
       \<and> (0 < n \<and> n < 2 ^ 53 \<longrightarrow> py_float (JNum (of_int n)) = Inr (of_int n))"
proof (intro conjI impI)
  note iff = load_kl11_voxel_grid_cells [where read_json = read_json and par = par
      and name = name and grid = grid, OF assms]
  show "load_kl11_voxel_grid module_file read_json par name = Inr grid
          \<longleftrightarrow> map voxel_quad cells = map Inr (grid_voxels grid)
              \<and> grid_parent grid = par \<and> grid_name grid = name"
    by (rule iff)
  assume "load_kl11_voxel_grid module_file read_json par name = Inr grid"
  with iff have m: "map voxel_quad cells = map Inr (grid_voxels grid)" by simp
  then show "length (grid_voxels grid) = length cells" by (metis length_map)
  then show "\<forall>k<length cells. voxel_quad (cells ! k) = Inr (grid_voxels grid ! k)"
    using m by (metis nth_map)
next
  show "voxel_quad voxel = Inr (v1, v2, v3, v4)
          \<longleftrightarrow> corner voxel ''p1'' = Inr v1 \<and> corner voxel ''p2'' = Inr v2
              \<and> corner voxel ''p3'' = Inr v3 \<and> corner voxel ''p4'' = Inr v4"
    by (rule voxel_quad_Inr)
  show "corner voxel key = Inr (Point2D x y)
          \<longleftrightarrow> (\<exists>p a b. getitem_key voxel key = Inr p \<and> getitem_index p 0 = Inr a
                \<and> getitem_index p 1 = Inr b \<and> py_float a = Inr x \<and> py_float b = Inr y)"
    by (rule corner_Inr)
next
  assume "0 < n \<and> n < 2 ^ 53"
  then show "py_float (JNum (of_int n)) = Inr (of_int n)" by (simp add: py_float_int)
qed

text \<open>
  Witness for C5: a description with two cells, read from the file beside the module
  \<^verbatim>\<open>/m/load_kl11.py\<close>, gives a grid with the two quadrilaterals in file order.
\<close>

theorem voxel_grid_from_cells_witness:
  "load_kl11_voxel_grid ''/m/load_kl11.py''
     (\<lambda>p. if p = ''/m/kl11_voxel_grid.json''
          then Inr (JObj [(''cells'',
                 JArr [JObj [(''p1'', JArr [JNum 1, JNum 2]), (''p2'', JArr [JNum 3, JNum 4]),
                             (''p3'', JArr [JNum 5, JNum 6]), (''p4'', JArr [JNum 7, JNum 8])],
                       JObj [(''p1'', JArr [JNum 3, JNum 4]), (''p2'', JArr [JNum 9, JNum 10]),
                             (''p3'', JArr [JNum 11, JNum 12]), (''p4'', JArr [JNum 5, JNum 6])]])])
          else Inl FileNotFoundError)
     (None :: unit option) (Some ''kl11'')
   = Inr \<lparr>grid_voxels =
            [(Point2D 1 2, Point2D 3 4, Point2D 5 6, Point2D 7 8),
             (Point2D 3 4, Point2D 9 10, Point2D 11 12, Point2D 5 6)],
          grid_parent = None, grid_name = Some ''kl11''\<rparr>"
proof -
  let ?c1 = "JObj [(''p1'', JArr [JNum 1, JNum 2]), (''p2'', JArr [JNum 3, JNum 4]),
                   (''p3'', JArr [JNum 5, JNum 6]), (''p4'', JArr [JNum 7, JNum 8])]"
  let ?c2 = "JObj [(''p1'', JArr [JNum 3, JNum 4]), (''p2'', JArr [JNum 9, JNum 10]),
                   (''p3'', JArr [JNum 11, JNum 12]), (''p4'', JArr [JNum 5, JNum 6])]"
  let ?g = "JObj [(''cells'', JArr [?c1, ?c2])]"
  let ?read = "\<lambda>p. if p = ''/m/kl11_voxel_grid.json'' then Inr ?g else Inl FileNotFoundError"
  let ?grid = "\<lparr>grid_voxels =
            [(Point2D 1 2, Point2D 3 4, Point2D 5 6, Point2D 7 8),
             (Point2D 3 4, Point2D 9 10, Point2D 11 12, Point2D 5 6)],
          grid_parent = (None :: unit option), grid_name = Some ''kl11''\<rparr>"
  have path: "os_path_join (fst (os_path_split ''/m/load_kl11.py'')) ''kl11_voxel_grid.json''
      = ''/m/kl11_voxel_grid.json''"
    by (simp add: os_path_join_def os_path_split_def Let_def)
  have r: "?read (os_path_join (fst (os_path_split ''/m/load_kl11.py'')) ''kl11_voxel_grid.json'')
      = Inr ?g"
    by (simp only: path refl if_True)
  have k: "getitem_key ?g ''cells'' = Inr (JArr [?c1, ?c2])"
    by (simp add: getitem_key_def)
  note th = voxel_grid_from_cells [where read_json = ?read and module_file = "''/m/load_kl11.py''"
      and par = None and name = "Some ''kl11''" and grid = ?grid, OF r k]
  note num = th [THEN conjunct2, THEN conjunct2, THEN conjunct2, THEN conjunct2]
  have f: "py_float (JNum 1) = Inr 1" "py_float (JNum 2) = Inr 2" "py_float (JNum 3) = Inr 3"
    "py_float (JNum 4) = Inr 4" "py_float (JNum 5) = Inr 5" "py_float (JNum 6) = Inr 6"
    "py_float (JNum 7) = Inr 7" "py_float (JNum 8) = Inr 8" "py_float (JNum 9) = Inr 9"
    "py_float (JNum 10) = Inr 10" "py_float (JNum 11) = Inr 11" "py_float (JNum 12) = Inr 12"
    using num [of 1] num [of 2] num [of 3] num [of 4] num [of 5] num [of 6]
      num [of 7] num [of 8] num [of 9] num [of 10] num [of 11] num [of 12]
    by simp_all
  have q: "map voxel_quad [?c1, ?c2] = map Inr (grid_voxels ?grid)"
    by (simp add: voxel_quad_def corner_def getitem_key_def getitem_index_def f)
  from th [THEN conjunct1] q show ?thesis by simp
qed

subsection \<open>C6: failures are not caught\<close>



subsection \<open>C7: the camera is built from the strided calibration arrays\<close>

text \<open>
  Claim C7.  For every stride from 1 on, \<open>load_kl11_camera\<close> builds the camera from the
  calibration's arrays of pixel origins and pixel directions, each strided by
  \<^verbatim>\<open>[::stride, ::stride]\<close>: along each axis the camera has \<open>\<lceil>n / stride\<rceil>\<close> pixels, \<open>n\<close>
  the length of that axis in the calibration, and pixel \<open>(i, j)\<close> of the camera is pixel
  \<open>(i * stride, j * stride)\<close> of the calibration, unchanged.
\<close>

theorem camera_strided_pixels:
  assumes "1 \<le> stride"
    and "load_calcam_calibration calibration_file = Inr (pixels_shape, Arr2 origins, Arr2 directions)"
    and "wf_ndarray origins" and "wf_ndarray directions"
  shows "\<exists>cam. load_kl11_camera load_calcam_calibration par pls stride = Inr cam
     \<and> wf_ndarray (pixel_origins cam) \<and> wf_ndarray (pixel_directions cam)
     \<and> int (shape0 (pixel_origins cam)) = \<lceil>(of_nat (shape0 origins) :: rat) / of_int stride\<rceil>
     \<and> int (shape1 (pixel_origins cam)) = \<lceil>(of_nat (shape1 origins) :: rat) / of_int stride\<rceil>
     \<and> int (shape0 (pixel_directions cam)) = \<lceil>(of_nat (shape0 directions) :: rat) / of_int stride\<rceil>
     \<and> int (shape1 (pixel_directions cam)) = \<lceil>(of_nat (shape1 directions) :: rat) / of_int stride\<rceil>
     \<and> (\<forall>i j. i < shape0 (pixel_origins cam) \<and> j < shape1 (pixel_origins cam) \<longrightarrow>
            rows (pixel_origins cam) ! i ! j = rows origins ! (i * nat stride) ! (j * nat stride))
     \<and> (\<forall>i j. i < shape0 (pixel_directions cam) \<and> j < shape1 (pixel_directions cam) \<longrightarrow>
            rows (pixel_directions cam) ! i ! j
              = rows directions ! (i * nat stride) ! (j * nat stride))"
proof -
  from assms(1) have s: "stride \<noteq> 0" "0 < stride" by simp_all
  from s(1) obtain os ds where os: "getitem_slice2 stride (Arr2 origins) = Inr os"
    and ds: "getitem_slice2 stride (Arr2 directions) = Inr ds"
    by (simp add: getitem_slice2_def)
  let ?cam = "\<lparr>pixel_origins = os, pixel_directions = ds,
          pipelines =
            (if falsy pls
             then [PowerPipeline2D \<lparr>display_unsaturated_fraction = 96 / 100,
                       pipeline_name = ''Unfiltered Power (W)'', display_update_time = Some 15\<rparr>]
             else the pls),
          parent = par, spectral_bins = Some 15, pixel_samples = Some 1\<rparr>"
  have cam: "load_kl11_camera load_calcam_calibration par pls stride = Inr ?cam"
    using assms(2) os ds by (rule load_kl11_camera_ok)
  note wo = wf_getitem_slice2 [OF assms(3) os] and wd = wf_getitem_slice2 [OF assms(4) ds]
  note c = slice_len_ceiling [OF assms(1)]
  have eo: "\<forall>i j. i < shape0 os \<and> j < shape1 os \<longrightarrow>
      rows os ! i ! j = rows origins ! (i * nat stride) ! (j * nat stride)"
    using nth_getitem_slice2 [OF assms(3) s(2) os] by blast
  have ed: "\<forall>i j. i < shape0 ds \<and> j < shape1 ds \<longrightarrow>
      rows ds ! i ! j = rows directions ! (i * nat stride) ! (j * nat stride)"
    using nth_getitem_slice2 [OF assms(4) s(2) ds] by blast
  show ?thesis
    using cam wo wd c eo ed by (intro exI [of _ ?cam]) simp
qed

text \<open>
  Witness for C7: a 3 by 4 calibration and stride 3 give a 1 by 2 camera whose pixel
  \<open>(0, 1)\<close> is pixel \<open>(0, 3)\<close> of the calibration.
\<close>

theorem camera_strided_pixels_witness:
  "\<exists>cam. load_kl11_camera
       (\<lambda>p. Inr ((3, 4),
              Arr2 \<lparr>shape0 = 3, shape1 = 4, rows = [[1, 2, 3, 4], [5, 6, 7, 8], [9, 10, 11, 12 :: int]]\<rparr>,
              Arr2 \<lparr>shape0 = 3, shape1 = 4, rows = [[1, 2, 3, 4], [5, 6, 7, 8], [9, 10, 11, 12 :: int]]\<rparr>))
       (None :: unit option) (None :: unit pipeline list option) 3 = Inr cam
     \<and> shape0 (pixel_origins cam) = 1 \<and> shape1 (pixel_origins cam) = 2
     \<and> rows (pixel_origins cam) ! 0 ! 1 = 4"
proof -
  let ?A = "\<lparr>shape0 = 3, shape1 = 4, rows = [[1, 2, 3, 4], [5, 6, 7, 8], [9, 10, 11, 12 :: int]]\<rparr>"
  have wf: "wf_ndarray ?A" by (simp add: wf_ndarray_def)
  have c: "\<lceil>(3::rat) / 3\<rceil> = 1" "\<lceil>(4::rat) / 3\<rceil> = 2"
    by simp (rule ceiling_unique, simp_all)
  from camera_strided_pixels [of 3 "\<lambda>p. Inr ((3, 4), Arr2 ?A, Arr2 ?A)" "(3, 4)" ?A ?A
      "None :: unit option" "None :: unit pipeline list option", OF _ refl wf wf]
  obtain cam where cam: "load_kl11_camera (\<lambda>p. Inr ((3, 4), Arr2 ?A, Arr2 ?A))
       (None :: unit option) (None :: unit pipeline list option) 3 = Inr cam"
    and sh: "int (shape0 (pixel_origins cam)) = \<lceil>(of_nat (shape0 ?A) :: rat) / of_int 3\<rceil>"
       "int (shape1 (pixel_origins cam)) = \<lceil>(of_nat (shape1 ?A) :: rat) / of_int 3\<rceil>"
    and el: "\<forall>i j. i < shape0 (pixel_origins cam) \<and> j < shape1 (pixel_origins cam) \<longrightarrow>
            rows (pixel_origins cam) ! i ! j = rows ?A ! (i * nat 3) ! (j * nat 3)"
    by auto
  from sh c have sh': "shape0 (pixel_origins cam) = 1" "shape1 (pixel_origins cam) = 2" by simp_all
  with el have "rows (pixel_origins cam) ! 0 ! 1 = rows ?A ! (0 * nat 3) ! (1 * nat 3)"
    by (metis zero_less_one one_less_numeral_iff semiring_norm(76))
  then have "rows (pixel_origins cam) ! 0 ! 1 = 4" by simp
  with cam sh' show ?thesis by blast
qed

subsection \<open>C8: the default pipeline\<close>

text \<open>
  Claim C8.  Whenever \<open>load_kl11_camera\<close> builds a camera: if the \<^verbatim>\<open>pipelines\<close> argument is
  falsy (\<^verbatim>\<open>None\<close>, the default, or the empty list) the camera has exactly one pipeline, an
  unfiltered 2D power pipeline with \<^verbatim>\<open>display_unsaturated_fraction\<close> 0.96 and
  \<^verbatim>\<open>display_update_time\<close> 15; if a non-empty list is supplied, the camera has that list,
  unchanged.
\<close>

theorem camera_default_pipeline:
  assumes "load_kl11_camera load_calcam_calibration par pls stride = Inr cam"
  shows "(pls = None \<or> pls = Some [] \<longrightarrow>
            pipelines cam =
              [PowerPipeline2D \<lparr>display_unsaturated_fraction = 96 / 100,
                  pipeline_name = ''Unfiltered Power (W)'', display_update_time = Some 15\<rparr>]
          \<and> length (pipelines cam) = 1)
       \<and> (\<forall>ps. pls = Some ps \<and> ps \<noteq> [] \<longrightarrow> pipelines cam = ps)"
proof -
  from load_kl11_camera_Inr [OF assms] obtain pixels_shape origins directions where
    f: "load_calcam_calibration calibration_file = Inr (pixels_shape, origins, directions)"
    "getitem_slice2 stride origins = Inr (pixel_origins cam)"
    "getitem_slice2 stride directions = Inr (pixel_directions cam)" by blast
  let ?cam = "\<lparr>pixel_origins = pixel_origins cam, pixel_directions = pixel_directions cam,
          pipelines =
            (if falsy pls
             then [PowerPipeline2D \<lparr>display_unsaturated_fraction = 96 / 100,
                       pipeline_name = ''Unfiltered Power (W)'', display_update_time = Some 15\<rparr>]
             else the pls),
          parent = par, spectral_bins = Some 15, pixel_samples = Some 1\<rparr>"
  have "load_kl11_camera load_calcam_calibration par pls stride = Inr ?cam"
    using f by (rule load_kl11_camera_ok)
  with assms have "cam = ?cam" by simp
  then have "pipelines cam = pipelines ?cam" by (rule arg_cong)
  then have "pipelines cam =
            (if falsy pls
             then [PowerPipeline2D \<lparr>display_unsaturated_fraction = 96 / 100,
                       pipeline_name = ''Unfiltered Power (W)'', display_update_time = Some 15\<rparr>]
             else the pls)" by simp
  then show ?thesis by (auto simp: falsy_def)
qed

text \<open>
  Witness for C8: with a one-pixel calibration, \<^verbatim>\<open>None\<close> and \<^verbatim>\<open>[]\<close> give the default
  pipeline, and a supplied one-element list is kept.
\<close>

theorem camera_default_pipeline_witness:
  "(\<exists>cam. load_kl11_camera
       (\<lambda>p. Inr ((1, 1), Arr2 \<lparr>shape0 = 1, shape1 = 1, rows = [[0 :: int]]\<rparr>,
                         Arr2 \<lparr>shape0 = 1, shape1 = 1, rows = [[0 :: int]]\<rparr>))
       (None :: unit option) (None :: nat pipeline list option) 1 = Inr cam
     \<and> pipelines cam =
          [PowerPipeline2D \<lparr>display_unsaturated_fraction = 96 / 100,
              pipeline_name = ''Unfiltered Power (W)'', display_update_time = Some 15\<rparr>])
   \<and> (\<exists>cam. load_kl11_camera
       (\<lambda>p. Inr ((1, 1), Arr2 \<lparr>shape0 = 1, shape1 = 1, rows = [[0 :: int]]\<rparr>,
                         Arr2 \<lparr>shape0 = 1, shape1 = 1, rows = [[0 :: int]]\<rparr>))
       (None :: unit option) (Some [] :: nat pipeline list option) 1 = Inr cam
     \<and> pipelines cam =
          [PowerPipeline2D \<lparr>display_unsaturated_fraction = 96 / 100,
              pipeline_name = ''Unfiltered Power (W)'', display_update_time = Some 15\<rparr>])
   \<and> (\<exists>cam. load_kl11_camera
       (\<lambda>p. Inr ((1, 1), Arr2 \<lparr>shape0 = 1, shape1 = 1, rows = [[0 :: int]]\<rparr>,
                         Arr2 \<lparr>shape0 = 1, shape1 = 1, rows = [[0 :: int]]\<rparr>))
       (None :: unit option) (Some [OtherPipeline (5 :: nat)]) 1 = Inr cam
     \<and> pipelines cam = [OtherPipeline 5])"
proof -
  let ?A = "\<lparr>shape0 = 1, shape1 = 1, rows = [[0 :: int]]\<rparr>"
  let ?cal = "\<lambda>p :: string. Inr ((1 :: nat, 1 :: nat), Arr2 ?A, Arr2 ?A)
                :: py_error + ((nat \<times> nat) \<times> int np_value \<times> int np_value)"
  have ex: "\<exists>cam. load_kl11_camera ?cal (None :: unit option) pls 1 = Inr cam"
    for pls :: "nat pipeline list option"
    by (simp add: load_kl11_camera_def getitem_slice2_def Let_def)
  from ex [of None] obtain c1 where
    c1: "load_kl11_camera ?cal (None :: unit option) (None :: nat pipeline list option) 1 = Inr c1"
    by blast
  from ex [of "Some []"] obtain c2 where
    c2: "load_kl11_camera ?cal (None :: unit option) (Some [] :: nat pipeline list option) 1 = Inr c2"
    by blast
  from ex [of "Some [OtherPipeline 5]"] obtain c3 where
    c3: "load_kl11_camera ?cal (None :: unit option) (Some [OtherPipeline (5 :: nat)]) 1 = Inr c3"
    by blast
  from camera_default_pipeline [OF c1] camera_default_pipeline [OF c2] camera_default_pipeline [OF c3]
  have "pipelines c1 =
          [PowerPipeline2D \<lparr>display_unsaturated_fraction = 96 / 100,
              pipeline_name = ''Unfiltered Power (W)'', display_update_time = Some 15\<rparr>]"
    "pipelines c2 =
          [PowerPipeline2D \<lparr>display_unsaturated_fraction = 96 / 100,
              pipeline_name = ''Unfiltered Power (W)'', display_update_time = Some 15\<rparr>]"
    "pipelines c3 = [OtherPipeline 5]"
    by simp_all
  with c1 c2 c3 show ?thesis by blast
qed

subsection \<open>C9: quasi-neutrality\<close>


subsection \<open>C10: the flow is purely toroidal\<close>



end
